theory Spec2Isabelle
  imports Main "HOL-Library.AList"
begin

section \<open>Terms and values\<close>

text \<open>
  The evaluator (package \<open>eval\<close>, the second document of \<^verbatim>\<open>src/repl/errors.go\<close>) works on
  the values of package \<open>opalog\<close>. That package is not among the sources; its value type is
  taken from the type switches of the evaluator (\<open>plugValue\<close>, \<open>walkValue\<close>,
  \<open>ValueToInterface\<close>) and from section 3 of the specification. A term is a value with a
  source location; the location is never read by the evaluator, so a term is modelled by its
  value. \<open>Number\<close> is a float64 in the source; the evaluator does no arithmetic on numbers
  (it only builds array indices from integers), so numbers are modelled by integers.
\<close>

datatype val =
    Null
  | Boolean bool
  | Number int
  | String string
  | Var string
  | Array "val list"
  | Object "(val \<times> val) list"
  | Ref "val list"

text \<open>
  Modelled from the spec: \<open>IsGround\<close> of package \<open>opalog\<close> is not among the sources.
  Section 3: a value is ground iff it contains no variable, and a reference is ground iff all
  its terms are ground, where the head of a reference is the variable that names the
  document root and the rest are its selectors. The head names a document and is not a
  variable to be solved (\<open>plugValue\<close> keeps it as it is and plugs the selectors only, and
  scenario 5 of the specification emits a binding whose value is a reference), so the test
  on a reference is the test on its selectors.
\<close>

fun IsGround :: "val \<Rightarrow> bool" where
  "IsGround (Var x) = False"
| "IsGround (Array xs) = list_all IsGround xs"
| "IsGround (Object ps) = list_all (\<lambda>p. IsGround (fst p) \<and> IsGround (snd p)) ps"
| "IsGround (Ref []) = True"
| "IsGround (Ref (h # ts)) = list_all IsGround ts"
| "IsGround v = True"

text \<open>
  \<open>walkValue\<close>: the iterator is called on every scalar and variable inside the value (not on
  the composites themselves); the walk stops at the first call that returns true.
\<close>

fun walkValue :: "val \<Rightarrow> (val \<Rightarrow> bool) \<Rightarrow> bool" where
  "walkValue (Ref xs) iter = list_ex (\<lambda>x. walkValue x iter) xs"
| "walkValue (Array xs) iter = list_ex (\<lambda>x. walkValue x iter) xs"
| "walkValue (Object ps) iter = list_ex (\<lambda>i. walkValue (fst i) iter \<or> walkValue (snd i) iter) ps"
| "walkValue v iter = iter v"

section \<open>The bindings map\<close>

text \<open>
  Modelled from the spec: the type \<open>hashMap\<close> is not among the sources. Sections 3 and 4.2: an
  associative map from values to values with structural equality on keys and the operations
  get, put, iter, copy and update (entries of the argument win). It is modelled by an
  association list with at most one entry per key: \<open>Put\<close> replaces the entry of a key that is
  present and appends otherwise, \<open>Iter\<close> visits the entries in list order and reports whether
  the callback stopped it, \<open>Copy\<close> is the identity (values are immutable).
\<close>

type_synonym hashMap = "(val \<times> val) list"

definition newHashMap :: hashMap where
  "newHashMap = []"

definition Get :: "hashMap \<Rightarrow> val \<Rightarrow> val option" where
  "Get m k = map_of m k"

definition Put :: "hashMap \<Rightarrow> val \<Rightarrow> val \<Rightarrow> hashMap" where
  "Put m k v = AList.update k v m"

definition Iter :: "hashMap \<Rightarrow> (val \<Rightarrow> val \<Rightarrow> bool) \<Rightarrow> bool" where
  "Iter m f = list_ex (\<lambda>kv. f (fst kv) (snd kv)) m"

definition Copy :: "hashMap \<Rightarrow> hashMap" where
  "Copy m = m"

definition Update :: "hashMap \<Rightarrow> hashMap \<Rightarrow> hashMap" where
  "Update m other = fold (\<lambda>kv acc. Put acc (fst kv) (snd kv)) other m"

section \<open>Substitution\<close>

text \<open>
  \<open>plugTerm\<close> and \<open>plugValue\<close>. The \<open>default\<close> branches are reached by the scalars only, which
  are ground, so their \<open>panic("unreachable")\<close> cannot happen. A reference that is not ground
  has a head, so \<open>v[0]\<close> is in range.
\<close>

fun plugTerm :: "val \<Rightarrow> hashMap \<Rightarrow> val"
  and plugValue :: "val \<Rightarrow> hashMap \<Rightarrow> val" where
  "plugTerm term bindings =
     (case term of
        Var x \<Rightarrow> plugValue term bindings
      | Ref r \<Rightarrow> plugValue term bindings
      | Array xs \<Rightarrow> plugValue term bindings
      | Object ps \<Rightarrow> plugValue term bindings
      | _ \<Rightarrow> term)"
| "plugValue (Var x) bindings =
     (case Get bindings (Var x) of None \<Rightarrow> Var x | Some binding \<Rightarrow> binding)"
| "plugValue (Ref r) bindings =
     (case Get bindings (Ref r) of
        Some binding \<Rightarrow> binding
      | None \<Rightarrow>
          if IsGround (Ref r) then Ref r
          else (case r of
                  [] \<Rightarrow> Ref r
                | h # ts \<Rightarrow> Ref (h # map (\<lambda>p. plugTerm p bindings) ts)))"
| "plugValue (Array xs) bindings = Array (map (\<lambda>e. plugTerm e bindings) xs)"
| "plugValue (Object ps) bindings =
     Object (map (\<lambda>e. (plugTerm (fst e) bindings, plugTerm (snd e) bindings)) ps)"
| "plugValue v bindings = v"

text \<open>On every term \<open>plugTerm\<close> is \<open>plugValue\<close>: a scalar is returned as it is by both.\<close>

lemma plugTerm_plugValue [simp]: "plugTerm t b = plugValue t b"
  by (cases t) simp_all

declare plugTerm.simps [simp del]

section \<open>Expressions, rules, contexts\<close>

text \<open>
  The \<open>Terms\<close> of an expression are one term or a list of terms (an operator and its operands).
  \<open>Complement\<close> and \<open>DocKind\<close> belong to package \<open>opalog\<close> and are not among the sources.
\<close>

datatype terms = Term val | TermList "val list"

record expr =
  Negated :: bool
  Terms :: terms

record rule =
  Name :: string
  Key :: "val option"
  Value :: "val option"
  Body :: "expr list"

text \<open>Modelled from the spec: \<open>Complement\<close> (section 4.5.2), the copy of the expression with the
  negation flag flipped.\<close>

definition Complement :: "expr \<Rightarrow> expr" where
  "Complement e = e\<lparr>Negated := \<not> Negated e\<rparr>"

datatype DocKind = CompleteDoc | PartialSetDoc | PartialObjectDoc

text \<open>Modelled from the spec: \<open>DocKind\<close> (section 3): complete when the rule has no key, partial
  set when it has a key only, partial object when it has a key and a value.\<close>

definition DocKind :: "rule \<Rightarrow> DocKind" where
  "DocKind r =
     (case Key r of
        None \<Rightarrow> CompleteDoc
      | Some k \<Rightarrow> (case Value r of None \<Rightarrow> PartialSetDoc | Some v \<Rightarrow> PartialObjectDoc))"

text \<open>
  \<open>TopDownContext\<close>. \<open>Previous\<close> and \<open>Tracer\<close> are read by tracing only and are left out;
  \<open>Store\<close> is the same in every context of one query and is passed beside the context.
\<close>

record TopDownContext =
  Query :: "expr list"
  Bindings :: hashMap
  Index :: int

definition NewTopDownContext :: "expr list \<Rightarrow> TopDownContext" where
  "NewTopDownContext query = \<lparr>Query = query, Bindings = newHashMap, Index = 0\<rparr>"

definition BindRef :: "TopDownContext \<Rightarrow> val list \<Rightarrow> val \<Rightarrow> TopDownContext" where
  "BindRef ctx ref v = ctx\<lparr>Bindings := Put (Copy (Bindings ctx)) (Ref ref) v\<rparr>"

text \<open>
  \<open>BindVar\<close>; \<open>None\<close> is the nil context of the source. The map \<open>tmp\<close> holds the new binding
  only; every existing binding is plugged with it and copied, then the new binding is put.
\<close>

definition BindVar :: "TopDownContext \<Rightarrow> string \<Rightarrow> val \<Rightarrow> TopDownContext option" where
  "BindVar ctx variable v =
     (if Var variable = v then Some ctx
      else if walkValue v (\<lambda>other. Var variable = other) then None
      else
        let tmp = Put newHashMap (Var variable) v;
            cpy = fold (\<lambda>kv acc. Put acc (fst kv) (plugValue (snd kv) tmp)) (Bindings ctx) newHashMap
        in Some (ctx\<lparr>Bindings := Put cpy (Var variable) v\<rparr>))"

definition Child :: "TopDownContext \<Rightarrow> rule \<Rightarrow> hashMap \<Rightarrow> TopDownContext" where
  "Child ctx r bindings = ctx\<lparr>Query := Body r, Bindings := bindings, Index := 0\<rparr>"

text \<open>\<open>Current\<close> indexes the query; out of range the source panics, here \<open>None\<close>.\<close>

definition Current :: "TopDownContext \<Rightarrow> expr option" where
  "Current ctx =
     (if 0 \<le> Index ctx \<and> Index ctx < int (length (Query ctx))
      then Some (Query ctx ! nat (Index ctx)) else None)"

definition Step :: "TopDownContext \<Rightarrow> TopDownContext" where
  "Step ctx = ctx\<lparr>Index := Index ctx + 1\<rparr>"

section \<open>Native values, errors and the store\<close>

text \<open>
  The Go values (\<open>interface{}\<close>) that the store returns and that \<open>ValueToInterface\<close> builds:
  nil, bool, float64, string, slices, string-keyed maps, and the rule sets of virtual
  documents. A map is an association list with one entry per key, in the order the
  evaluator enumerates it.
\<close>

datatype native =
    NNil
  | NBool bool
  | NNumber int
  | NString string
  | NSlice "native list"
  | NMap "(string \<times> native) list"
  | NRules "rule list"

datatype ErrCode = StorageNotFoundErr | StorageOtherErr nat

text \<open>An error of the store: a \<open>*StorageError\<close> with its code, or an error of another type.\<close>

datatype storage_error = StorageError ErrCode string | OtherError string

text \<open>The errors the evaluator makes itself (one constructor per \<open>fmt.Errorf\<close>), and the
  store's errors, which it hands on unchanged.\<close>

datatype error =
    FromStore storage_error
  | UnboundVariable "val option"
  | ConvertNonStringKey native
  | ObjectVariableKey val
  | ObjectNonStringKey val
  | ImplicitCast val
  | NonComposite "val list" "val list"
  | NotImplemented "val list" "val list" rule
  | CannotDereference rule
  | IndexBuildFailed storage_error "val list"
  | MissingIndex "val list"
  | MultipleConflictingRules string
  | ProduceNonStringKey native
  | InvalidDocument "val list"

text \<open>
  The storage layer (\<open>Storage\<close>, its \<open>Indices\<close>, \<open>Ref.Underlying\<close>) is not among the sources and
  is a parameter of the evaluator:
  \<^item> \<open>lookup\<close> is the function \<open>lookup(store, ref)\<close> of the source with the store fixed
    (\<open>ref.Underlying()\<close> followed by \<open>store.Get\<close>);
  \<^item> \<open>IndicesGet ref\<close> tells whether \<open>Indices.Get(ref)\<close> is not nil;
  \<^item> \<open>IndicesBuild ref\<close> is the error of \<open>Indices.Build(store, ref)\<close>, if any;
  \<^item> \<open>IndexIter ref v\<close> lists the bindings that \<open>Index.Iter(v, ...)\<close> passes to its callback
    once the index on \<open>ref\<close> exists.
\<close>

record store =
  lookup :: "val list \<Rightarrow> storage_error + native"
  IndicesGet :: "val list \<Rightarrow> bool"
  IndicesBuild :: "val list \<Rightarrow> storage_error option"
  IndexIter :: "val list \<Rightarrow> native \<Rightarrow> hashMap list"

text \<open>A Go function with a result and an error, which may also panic.\<close>

datatype 'a result = Ok 'a | Error error | Panic

text \<open>
  \<open>ValueToInterface\<close>. The \<open>default\<close> branch (a variable) panics. A key is converted before its
  value, an element before the next one, and the first error or panic ends the conversion:
  \<open>appendSlice\<close> and \<open>putMap\<close> are one round of the two loops, on the result so far.
\<close>

definition appendSlice :: "native result \<Rightarrow> native result \<Rightarrow> native result" where
  "appendSlice acc x =
     (case acc of
        Ok (NSlice buf) \<Rightarrow>
          (case x of Ok x1 \<Rightarrow> Ok (NSlice (buf @ [x1])) | Error e \<Rightarrow> Error e | Panic \<Rightarrow> Panic)
      | _ \<Rightarrow> acc)"

definition putMap :: "native result \<Rightarrow> native result \<Rightarrow> native result \<Rightarrow> native result" where
  "putMap acc k v =
     (case acc of
        Ok (NMap buf) \<Rightarrow>
          (case k of
             Ok (NString asStr) \<Rightarrow>
               (case v of
                  Ok v1 \<Rightarrow> Ok (NMap (AList.update asStr v1 buf))
                | Error e \<Rightarrow> Error e
                | Panic \<Rightarrow> Panic)
           | Ok k1 \<Rightarrow> Error (ConvertNonStringKey k1)
           | Error e \<Rightarrow> Error e
           | Panic \<Rightarrow> Panic)
      | _ \<Rightarrow> acc)"

fun ValueToInterface :: "store \<Rightarrow> val \<Rightarrow> native result" where
  "ValueToInterface st Null = Ok NNil"
| "ValueToInterface st (Boolean b) = Ok (NBool b)"
| "ValueToInterface st (Number n) = Ok (NNumber n)"
| "ValueToInterface st (String s) = Ok (NString s)"
| "ValueToInterface st (Array xs) =
     fold (\<lambda>x acc. appendSlice acc (ValueToInterface st x)) xs (Ok (NSlice []))"
| "ValueToInterface st (Object ps) =
     fold (\<lambda>x acc. putMap acc (ValueToInterface st (fst x)) (ValueToInterface st (snd x)))
       ps (Ok (NMap []))"
| "ValueToInterface st (Ref r) =
     (case lookup st r of Inl e \<Rightarrow> Error (FromStore e) | Inr node \<Rightarrow> Ok node)"
| "ValueToInterface st (Var x) = Panic"

text \<open>\<open>dereferenceVar\<close>: the binding of a variable as a native value.\<close>

definition dereferenceVar :: "store \<Rightarrow> val \<Rightarrow> TopDownContext \<Rightarrow> native result" where
  "dereferenceVar st v ctx =
     (case Get (Bindings ctx) v of
        None \<Rightarrow> Error (UnboundVariable (Some v))
      | Some binding \<Rightarrow> ValueToInterface st binding)"

text \<open>Modelled from the spec: \<open>Compare\<close> is not among the sources. Section 4.5.1: two values
  that reach \<open>evalEqGround\<close> unify iff their native forms are equal.\<close>

definition Compare :: "native \<Rightarrow> native \<Rightarrow> int" where
  "Compare a b = (if a = b then 0 else 1)"

section \<open>Iterators\<close>

text \<open>
  Every function of the evaluator takes an iterator \<open>iter\<close>, a callback that receives a context
  and returns an error or nil, and returns an error or nil itself. Such a function is
  modelled by the run it makes: \<open>Emit ctx k\<close> is a call \<open>iter(ctx)\<close> whose answer \<open>e\<close> the
  function carries on from as \<open>k e\<close>, and \<open>Done\<close> is the end of the run: the function returns
  (\<open>Return\<close>, with its error or nil), it panics, or the recursion budget of the model is
  used up (\<open>OutOfFuel\<close>: the source may recurse for ever, on rules that refer to themselves
  and on bindings that contain their own variable).
\<close>

datatype outcome = Return "error option" | Panicked | OutOfFuel

datatype res = Done outcome | Emit TopDownContext "error option \<Rightarrow> res"

text \<open>\<open>return iter(ctx)\<close>, \<open>return nil\<close> and \<open>return err\<close>.\<close>

definition yield :: "TopDownContext \<Rightarrow> res" where
  "yield ctx = Emit ctx (\<lambda>e. Done (Return e))"

definition ret_nil :: res where
  "ret_nil = Done (Return None)"

definition ret_err :: "error \<Rightarrow> res" where
  "ret_err e = Done (Return (Some e))"

text \<open>\<open>andThen r f\<close>: the run \<open>r\<close>, and once it has returned (with \<open>e\<close>) the run \<open>f e\<close>. A panic
  is not a return.\<close>

primrec andThen :: "res \<Rightarrow> (error option \<Rightarrow> res) \<Rightarrow> res" where
  "andThen (Done out) f =
     (case out of Return e \<Rightarrow> f e | Panicked \<Rightarrow> Done Panicked | OutOfFuel \<Rightarrow> Done OutOfFuel)"
| "andThen (Emit ctx k) f = Emit ctx (\<lambda>e. andThen (k e) f)"

text \<open>\<open>withIter r body\<close>: the run \<open>r\<close> of a function whose iterator is the closure
  \<open>func(ctx) error { body }\<close>: each call of the iterator is the run of the body, and what the
  body returns is the answer the function carries on from.\<close>

primrec withIter :: "res \<Rightarrow> (TopDownContext \<Rightarrow> res) \<Rightarrow> res" where
  "withIter (Done out) body = Done out"
| "withIter (Emit ctx k) body = andThen (body ctx) (\<lambda>e. withIter (k e) body)"

text \<open>\<open>withIterVar r v body\<close>: the same for a closure that assigns to a variable it has
  captured, whose value is \<open>v\<close> at first; the body gets the value and the context, and gives the
  new value and its run. Every such closure of the source assigns before it calls on.\<close>

primrec withIterVar :: "res \<Rightarrow> 'v \<Rightarrow> ('v \<Rightarrow> TopDownContext \<Rightarrow> 'v \<times> res) \<Rightarrow> res" where
  "withIterVar (Done out) = (\<lambda>v body. Done out)"
| "withIterVar (Emit ctx k) =
     (\<lambda>v body. andThen (snd (body v ctx)) (\<lambda>e. withIterVar (k e) (fst (body v ctx)) body))"

text \<open>\<open>collect r\<close>: the run \<open>r\<close> under the closure \<open>func(ctx) error { tmp = ctx; return nil }\<close>
  (or \<open>isTrue = true\<close>): the contexts it was called with, and how the function ended.\<close>

primrec collect :: "res \<Rightarrow> TopDownContext list \<times> outcome" where
  "collect (Done out) = ([], out)"
| "collect (Emit ctx k) = (ctx # fst (collect (k None)), snd (collect (k None)))"

text \<open>\<open>forEach xs f\<close>: the loop \<open>for x in xs { if err := f(x); err != nil { return err } }
  return nil\<close>.\<close>

primrec forEach :: "'a list \<Rightarrow> ('a \<Rightarrow> res) \<Rightarrow> res" where
  "forEach [] f = ret_nil"
| "forEach (x # xs) f =
     andThen (f x) (\<lambda>e. case e of None \<Rightarrow> forEach xs f | Some err \<Rightarrow> ret_err err)"

text \<open>A user's iterator with its own state \<open>'s\<close> (the variables its closure has captured):
  it returns nil (\<open>Ok ()\<close>) or an error, or it panics. \<open>runIter\<close> is the run of a function
  under it: how the function ends, and the state the iterator is left in.\<close>

type_synonym 's TopDownIterator = "TopDownContext \<Rightarrow> 's \<Rightarrow> unit result \<times> 's"

primrec runIter :: "res \<Rightarrow> 's TopDownIterator \<Rightarrow> 's \<Rightarrow> outcome \<times> 's" where
  "runIter (Done out) = (\<lambda>iter s. (out, s))"
| "runIter (Emit ctx k) =
     (\<lambda>iter s.
        case fst (iter ctx s) of
          Ok u \<Rightarrow> runIter (k None) iter (snd (iter ctx s))
        | Error err \<Rightarrow> runIter (k (Some err)) iter (snd (iter ctx s))
        | Panic \<Rightarrow> (Panicked, snd (iter ctx s)))"

text \<open>\<open>calls r iter s\<close>: the contexts the user's iterator is called with in that run, in
  order.\<close>

primrec calls :: "res \<Rightarrow> 's TopDownIterator \<Rightarrow> 's \<Rightarrow> TopDownContext list" where
  "calls (Done out) = (\<lambda>iter s. [])"
| "calls (Emit ctx k) =
     (\<lambda>iter s.
        ctx # (case fst (iter ctx s) of
                 Ok u \<Rightarrow> calls (k None) iter (snd (iter ctx s))
               | Error err \<Rightarrow> calls (k (Some err)) iter (snd (iter ctx s))
               | Panic \<Rightarrow> []))"

text \<open>\<open>emits r ctx\<close>: in the run \<open>r\<close> the iterator is called with \<open>ctx\<close>, for some answers of the
  iterator to the calls before.\<close>

inductive emits :: "res \<Rightarrow> TopDownContext \<Rightarrow> bool" where
  emits_here: "emits (Emit ctx k) ctx"
| emits_later: "emits (k e) ctx' \<Longrightarrow> emits (Emit ctx k) ctx'"

section \<open>Unification\<close>

text \<open>Modelled from the spec: \<open>Equal\<close> of package \<open>opalog\<close> is not among the sources. Section
  4.1: structural equality. (The specification makes it insensitive to the order of the pairs
  of an object; the model compares the lists of pairs.)\<close>

definition Equal :: "val \<Rightarrow> val \<Rightarrow> bool" where
  "Equal a b = (a = b)"

definition evalEqGround :: "store \<Rightarrow> TopDownContext \<Rightarrow> val \<Rightarrow> val \<Rightarrow> res" where
  "evalEqGround st ctx a b =
     (case ValueToInterface st a of
        Error err \<Rightarrow> ret_err err
      | Panic \<Rightarrow> Done Panicked
      | Ok av \<Rightarrow>
          (case ValueToInterface st b of
             Error err \<Rightarrow> ret_err err
           | Panic \<Rightarrow> Done Panicked
           | Ok bv \<Rightarrow> if Compare av bv = 0 then yield ctx else ret_nil))"

definition evalEqUnifyVar :: "TopDownContext \<Rightarrow> string \<Rightarrow> val \<Rightarrow> res" where
  "evalEqUnifyVar ctx a b =
     (case BindVar ctx a b of None \<Rightarrow> ret_nil | Some ctx' \<Rightarrow> yield ctx')"

text \<open>
  The loops of the unifier thread the context: one round either goes on with a context or
  ends the function. \<open>unifyStep r\<close> is the common end of a round, after the call \<open>r\<close> of
  \<open>evalEqUnify\<close> under the closure that stores its context in \<open>tmp\<close>:
  \<open>if err != nil { return err }; if tmp == nil { return nil }; ctx = tmp\<close>.
\<close>

datatype 'a step = Continue 'a | Stop outcome

primrec forCtx :: "'a list \<Rightarrow> ('a \<Rightarrow> TopDownContext \<Rightarrow> TopDownContext step) \<Rightarrow> TopDownContext \<Rightarrow> TopDownContext step" where
  "forCtx [] body ctx = Continue ctx"
| "forCtx (x # xs) body ctx =
     (case body x ctx of Continue ctx' \<Rightarrow> forCtx xs body ctx' | Stop out \<Rightarrow> Stop out)"

definition unifyStep :: "res \<Rightarrow> TopDownContext step" where
  "unifyStep r =
     (case snd (collect r) of
        Return None \<Rightarrow>
          (case fst (collect r) of [] \<Rightarrow> Stop (Return None) | c # cs \<Rightarrow> Continue (last (c # cs)))
      | out \<Rightarrow> Stop out)"

definition endLoop :: "TopDownContext step \<Rightarrow> res" where
  "endLoop s = (case s of Continue ctx \<Rightarrow> yield ctx | Stop out \<Rightarrow> Done out)"

text \<open>
  The inner loop of \<open>evalEqUnifyObjects\<close> over the pairs of \<open>b\<close>, for one pair of \<open>a\<close> with key
  \<open>k\<close>: \<open>tmp\<close> is declared outside this loop and keeps the context of the last call that
  succeeded; the loop breaks when \<open>tmp\<close> is nil after a call.
\<close>

primrec matchKey :: "(val \<times> val) list \<Rightarrow> val \<Rightarrow> (val \<Rightarrow> res) \<Rightarrow> TopDownContext option \<Rightarrow> TopDownContext option step" where
  "matchKey [] k f tmp = Continue tmp"
| "matchKey (bj # bs) k f tmp =
     (if Equal (fst bj) k then
        (case snd (collect (f (snd bj))) of
           Return None \<Rightarrow>
             (case (case fst (collect (f (snd bj))) of [] \<Rightarrow> tmp | c # cs \<Rightarrow> Some (last (c # cs))) of
                None \<Rightarrow> Continue None
              | Some ctx' \<Rightarrow> matchKey bs k f (Some ctx'))
         | out \<Rightarrow> Stop out)
      else matchKey bs k f tmp)"

text \<open>The first loop of \<open>evalEqUnifyObjects\<close>: the key of \<open>a[i]\<close> is tested before the key of
  \<open>b[i]\<close>, for each \<open>i\<close> in turn; the result is the first key that is not ground.\<close>

fun variableKey :: "(val \<times> val) list \<Rightarrow> (val \<times> val) list \<Rightarrow> val option" where
  "variableKey (ai # a) (bi # b) =
     (if \<not> IsGround (fst ai) then Some (fst ai)
      else if \<not> IsGround (fst bi) then Some (fst bi)
      else variableKey a b)"
| "variableKey a b = None"

text \<open>
  The functions of the unifier call one another and come back to \<open>evalEqUnify\<close>. Each is
  defined with the function it calls back as its first argument (named \<open>evalEqUnify\<close> as in
  the source, for the store at hand); \<open>evalEqUnify\<close> itself is then defined by recursion on
  the budget, one unit per call.
\<close>

definition evalEqUnifyArrayRef ::
  "(TopDownContext \<Rightarrow> val \<Rightarrow> val \<Rightarrow> res) \<Rightarrow> store \<Rightarrow> TopDownContext \<Rightarrow> val list \<Rightarrow> val list \<Rightarrow> res" where
  "evalEqUnifyArrayRef evalEqUnify st ctx a b =
     (case lookup st b of
        Inl err \<Rightarrow> ret_err (FromStore err)
      | Inr r \<Rightarrow>
          (case r of
             NSlice slice \<Rightarrow>
               if length a \<noteq> length slice then ret_nil
               else endLoop (forCtx (enumerate 0 a)
                      (\<lambda>ia ctx. unifyStep (evalEqUnify ctx (snd ia) (Ref (b @ [Number (int (fst ia))]))))
                      ctx)
           | _ \<Rightarrow> ret_nil))"

definition evalEqUnifyArrays ::
  "(TopDownContext \<Rightarrow> val \<Rightarrow> val \<Rightarrow> res) \<Rightarrow> TopDownContext \<Rightarrow> val list \<Rightarrow> val list \<Rightarrow> res" where
  "evalEqUnifyArrays evalEqUnify ctx a b =
     (if length a \<noteq> length b then ret_nil
      else endLoop (forCtx (zip a b)
             (\<lambda>ab ctx. unifyStep (evalEqUnify ctx (fst ab) (snd ab))) ctx))"

definition evalEqUnifyArray ::
  "(TopDownContext \<Rightarrow> val \<Rightarrow> val \<Rightarrow> res) \<Rightarrow> store \<Rightarrow> TopDownContext \<Rightarrow> val list \<Rightarrow> val \<Rightarrow> res" where
  "evalEqUnifyArray evalEqUnify st ctx a b =
     (case b of
        Var y \<Rightarrow> evalEqUnifyVar ctx y (Array a)
      | Ref r \<Rightarrow> evalEqUnifyArrayRef evalEqUnify st ctx a r
      | Array ys \<Rightarrow> evalEqUnifyArrays evalEqUnify ctx a ys
      | _ \<Rightarrow> ret_nil)"

definition evalEqUnifyObjectRef ::
  "(TopDownContext \<Rightarrow> val \<Rightarrow> val \<Rightarrow> res) \<Rightarrow> store \<Rightarrow> TopDownContext \<Rightarrow> (val \<times> val) list \<Rightarrow> val list \<Rightarrow> res" where
  "evalEqUnifyObjectRef evalEqUnify st ctx a b =
     (case lookup st b of
        Inl err \<Rightarrow> ret_err (FromStore err)
      | Inr r \<Rightarrow>
          (case find (\<lambda>ai. \<not> IsGround (fst ai)) a of
             Some ai \<Rightarrow> ret_err (ObjectVariableKey (fst ai))
           | None \<Rightarrow>
               (case r of
                  NMap obj \<Rightarrow>
                    if length obj \<noteq> length a then ret_nil
                    else endLoop (forCtx a
                           (\<lambda>ai ctx.
                              case fst ai of
                                String k \<Rightarrow>
                                  (case map_of obj k of
                                     None \<Rightarrow> Stop (Return None)
                                   | Some v \<Rightarrow>
                                       unifyStep (evalEqUnify ctx (snd ai) (Ref (b @ [fst ai]))))
                              | _ \<Rightarrow> Stop (Return (Some (ObjectNonStringKey (fst ai)))))
                           ctx)
                | _ \<Rightarrow> ret_nil)))"

definition evalEqUnifyObjects ::
  "(TopDownContext \<Rightarrow> val \<Rightarrow> val \<Rightarrow> res) \<Rightarrow> TopDownContext \<Rightarrow> (val \<times> val) list \<Rightarrow> (val \<times> val) list \<Rightarrow> res" where
  "evalEqUnifyObjects evalEqUnify ctx a b =
     (if length a \<noteq> length b then ret_nil
      else
        (case variableKey a b of
           Some k \<Rightarrow> ret_err (ObjectVariableKey k)
         | None \<Rightarrow>
             endLoop (forCtx a
               (\<lambda>ai ctx.
                  case matchKey b (fst ai) (\<lambda>bv. evalEqUnify ctx (snd ai) bv) None of
                    Stop out \<Rightarrow> Stop out
                  | Continue None \<Rightarrow> Stop (Return None)
                  | Continue (Some tmp) \<Rightarrow> Continue tmp)
               ctx)))"

definition evalEqUnifyObject ::
  "(TopDownContext \<Rightarrow> val \<Rightarrow> val \<Rightarrow> res) \<Rightarrow> store \<Rightarrow> TopDownContext \<Rightarrow> (val \<times> val) list \<Rightarrow> val \<Rightarrow> res" where
  "evalEqUnifyObject evalEqUnify st ctx a b =
     (case b of
        Var y \<Rightarrow> evalEqUnifyVar ctx y (Object a)
      | Ref r \<Rightarrow> evalEqUnifyObjectRef evalEqUnify st ctx a r
      | Object qs \<Rightarrow> evalEqUnifyObjects evalEqUnify ctx a qs
      | _ \<Rightarrow> ret_nil)"

text \<open>The body of \<open>evalEqUnify\<close>: both sides are plugged first, then the switch on the type of
  \<open>a\<close> and, in its \<open>default\<close> branch, on the type of \<open>b\<close>.\<close>

definition evalEqUnifyBody ::
  "(TopDownContext \<Rightarrow> val \<Rightarrow> val \<Rightarrow> res) \<Rightarrow> store \<Rightarrow> TopDownContext \<Rightarrow> val \<Rightarrow> val \<Rightarrow> res" where
  "evalEqUnifyBody evalEqUnify st ctx a b =
     (case plugValue a (Bindings ctx) of
        Var x \<Rightarrow> evalEqUnifyVar ctx x (plugValue b (Bindings ctx))
      | Object ps \<Rightarrow> evalEqUnifyObject evalEqUnify st ctx ps (plugValue b (Bindings ctx))
      | Array xs \<Rightarrow> evalEqUnifyArray evalEqUnify st ctx xs (plugValue b (Bindings ctx))
      | a' \<Rightarrow>
          (case plugValue b (Bindings ctx) of
             Var y \<Rightarrow> evalEqUnifyVar ctx y a'
           | Array ys \<Rightarrow> evalEqUnifyArray evalEqUnify st ctx ys a'
           | Object qs \<Rightarrow> evalEqUnifyObject evalEqUnify st ctx qs a'
           | b' \<Rightarrow> evalEqGround st ctx a' b'))"

primrec evalEqUnify :: "nat \<Rightarrow> store \<Rightarrow> TopDownContext \<Rightarrow> val \<Rightarrow> val \<Rightarrow> res" where
  "evalEqUnify 0 st ctx a b = Done OutOfFuel"
| "evalEqUnify (Suc n) st ctx a b = evalEqUnifyBody (evalEqUnify n st) st ctx a b"

section \<open>Expressions\<close>

text \<open>\<open>plugExpr\<close>: the operator \<open>ts[0]\<close> is kept and the operands are plugged; an empty list of
  terms makes \<open>ts[0]\<close> panic.\<close>

definition plugExpr :: "expr \<Rightarrow> hashMap \<Rightarrow> expr result" where
  "plugExpr e bindings =
     (case Terms e of
        TermList ts \<Rightarrow>
          (case ts of
             [] \<Rightarrow> Panic
           | t0 # rest \<Rightarrow> Ok (e\<lparr>Terms := TermList (t0 # map (\<lambda>t. plugTerm t bindings) rest)\<rparr>))
      | Term t \<Rightarrow> Ok (e\<lparr>Terms := Term (plugTerm t bindings)\<rparr>))"

text \<open>\<open>evalEq\<close>, with \<open>unify\<close> for \<open>evalEqUnify\<close> at the budget at hand: the operands are \<open>operands[1]\<close> and \<open>operands[2]\<close>.\<close>

definition evalEq ::
  "(TopDownContext \<Rightarrow> val \<Rightarrow> val \<Rightarrow> res) \<Rightarrow> TopDownContext \<Rightarrow> expr \<Rightarrow> res" where
  "evalEq unify ctx e =
     (case Terms e of
        TermList (t0 # a # b # rest) \<Rightarrow> unify ctx a b
      | _ \<Rightarrow> Done Panicked)"

text \<open>The table \<open>builtinFunctions\<close> has one entry, the equality operator.\<close>

definition equalityBuiltin :: string where
  "equalityBuiltin = ''=''"

definition builtinFunctions ::
  "(TopDownContext \<Rightarrow> val \<Rightarrow> val \<Rightarrow> res) \<Rightarrow> string \<Rightarrow> (TopDownContext \<Rightarrow> expr \<Rightarrow> res) option" where
  "builtinFunctions unify name =
     (if name = equalityBuiltin then Some (evalEq unify) else None)"

text \<open>\<open>evalExpr\<close>. The operator of a term list must be a variable (a type assertion) that names
  a built-in, or the source panics.\<close>

definition evalExpr ::
  "(TopDownContext \<Rightarrow> val \<Rightarrow> val \<Rightarrow> res) \<Rightarrow> TopDownContext \<Rightarrow> res" where
  "evalExpr unify ctx =
     (case Current ctx of
        None \<Rightarrow> Done Panicked
      | Some cur \<Rightarrow>
          (case plugExpr cur (Bindings ctx) of
             Ok e \<Rightarrow>
               (case Terms e of
                  TermList tt \<Rightarrow>
                    (case tt of
                       Var name # rest \<Rightarrow>
                         (case builtinFunctions unify name of
                            None \<Rightarrow> Done Panicked
                          | Some builtin \<Rightarrow> builtin ctx e)
                     | _ \<Rightarrow> Done Panicked)
                | Term tv \<Rightarrow>
                    (case tv of
                       Boolean b \<Rightarrow> if Equal tv (Boolean True) then yield ctx else ret_nil
                     | _ \<Rightarrow> ret_err (ImplicitCast tv)))
           | _ \<Rightarrow> Done Panicked))"

section \<open>References\<close>

text \<open>
  Modelled from the spec: \<open>Array.Query\<close> and \<open>Object.Query\<close> of package \<open>opalog\<close> are not among
  the sources. Section 4.1: given a reference suffix whose head may be a ground selector or a
  variable, every position that satisfies the selector is enumerated, descending
  recursively; each hit is a pair of the values chosen for the variables of the suffix and
  the value found. The hits are listed in the order of the elements.
\<close>

fun Query_value :: "val \<Rightarrow> val list \<Rightarrow> ((string \<times> val) list \<times> val) list" where
  "Query_value v [] = [([], v)]"
| "Query_value (Array xs) (Var x # suffix) =
     concat (map (\<lambda>ie. map (\<lambda>hit. ((x, Number (int (fst ie))) # fst hit, snd hit))
                          (Query_value (snd ie) suffix)) (enumerate 0 xs))"
| "Query_value (Array xs) (Number i # suffix) =
     (if 0 \<le> i \<and> i < int (length xs) then Query_value (xs ! nat i) suffix else [])"
| "Query_value (Object ps) (Var x # suffix) =
     concat (map (\<lambda>p. map (\<lambda>hit. ((x, fst p) # fst hit, snd hit))
                         (Query_value (snd p) suffix)) ps)"
| "Query_value (Object ps) (k # suffix) =
     concat (map (\<lambda>p. if Equal (fst p) k then Query_value (snd p) suffix else []) ps)"
| "Query_value v (k # suffix) = []"

text \<open>\<open>BindVar\<close> on a receiver that may be nil: the method reads the receiver only after the
  two tests on the value, so on nil it returns nil from them and panics after them.\<close>

definition BindVarPtr :: "TopDownContext option \<Rightarrow> string \<Rightarrow> val \<Rightarrow> TopDownContext option result" where
  "BindVarPtr ctx variable v =
     (case ctx of
        Some c \<Rightarrow> Ok (BindVar c variable v)
      | None \<Rightarrow>
          if Var variable = v then Ok None
          else if walkValue v (\<lambda>other. Var variable = other) then Ok None
          else Panic)"

text \<open>
  The calls that close a cycle among the functions below. Each function is defined with the
  argument \<open>call\<close>, through which it makes these calls; the cycle is closed by \<open>exec\<close> at the
  end, by recursion on the budget.
\<close>

datatype call =
    EvalContext TopDownContext
  | EvalRefRec TopDownContext "val list" "val list"
  | EvalTermsRec TopDownContext "val list"
  | EvalTermsRecArray TopDownContext "val list" nat
  | EvalTermsRecObject TopDownContext "(val \<times> val) list" nat

text \<open>
  The callback that \<open>evalRefRuleResult\<close> passes to \<open>Query\<close>, over the hits in turn. The
  context \<open>ctx\<close> it assigns to is the parameter of \<open>evalRefRuleResult\<close>, so a later hit starts
  from the context of the hit before. A nil context (from \<open>BindVar\<close>) makes \<open>BindRef\<close> panic;
  handed to the iterator it is dereferenced by every iterator of the evaluator (\<open>evalExpr\<close>
  reads \<open>ctx.Current()\<close>, the others read \<open>ctx.Bindings\<close> or \<open>ctx.Store\<close>), which is a panic
  too. \<open>Query\<close> is taken to stop at the first error of its callback and to return it; the
  caller drops that error.
\<close>

primrec queryHits ::
  "((string \<times> val) list \<times> val) list \<Rightarrow> val list \<Rightarrow> TopDownContext \<Rightarrow> res" where
  "queryHits [] ref ctx = ret_nil"
| "queryHits (hit # hits) ref ctx =
     (case fold (\<lambda>kv c. case c of Ok c' \<Rightarrow> BindVarPtr c' (fst kv) (snd kv) | _ \<Rightarrow> c)
             (fst hit) (Ok (Some (BindRef ctx ref (snd hit)))) of
        Ok (Some ctx') \<Rightarrow>
          Emit ctx' (\<lambda>e. case e of None \<Rightarrow> queryHits hits ref ctx' | Some err \<Rightarrow> ret_nil)
      | _ \<Rightarrow> Done Panicked)"

text \<open>\<open>evalRefRuleResult\<close>. Its context may be nil when it comes from \<open>BindVar\<close> in
  \<open>evalRefRulePartialObjectDoc\<close>; then every branch but the one that returns nil at once
  dereferences it.\<close>

definition evalRefRuleResult ::
  "(call \<Rightarrow> res) \<Rightarrow> TopDownContext option \<Rightarrow> val list \<Rightarrow> val list \<Rightarrow> val \<Rightarrow> res" where
  "evalRefRuleResult call ctx ref suffix result =
     (case result of
        Ref r \<Rightarrow>
          (case ctx of
             None \<Rightarrow> Done Panicked
           | Some c \<Rightarrow>
               withIter (call (EvalRefRec c suffix r))
                 (\<lambda>ctx. yield (BindRef ctx ref (plugValue (Ref (r @ suffix)) (Bindings ctx)))))
      | Array xs \<Rightarrow>
          (if length suffix > 0 then
             (case ctx of
                None \<Rightarrow> Done Panicked
              | Some c \<Rightarrow>
                  queryHits (Query_value result (map (\<lambda>t. plugTerm t (Bindings c)) suffix)) ref c)
           else Done Panicked)
      | Object ps \<Rightarrow>
          (if length suffix > 0 then
             (case ctx of
                None \<Rightarrow> Done Panicked
              | Some c \<Rightarrow>
                  queryHits (Query_value result (map (\<lambda>t. plugTerm t (Bindings c)) suffix)) ref c)
           else Done Panicked)
      | _ \<Rightarrow>
          (if length suffix > 0 then ret_nil
           else (case ctx of None \<Rightarrow> Done Panicked | Some c \<Rightarrow> yield (BindRef c ref result))))"

text \<open>
  The rules. \<open>ref[len(path):]\<close> panics when the path is longer than the reference;
  \<open>rule.Key.Value\<close> and \<open>rule.Value.Value\<close> panic when the rule has no key or no value; a type
  assertion to \<open>Var\<close> panics on another value. \<open>TopDown(child, ...)\<close> is the call
  \<open>EvalContext child\<close>.
\<close>

definition evalRefRuleCompleteDoc ::
  "(call \<Rightarrow> res) \<Rightarrow> TopDownContext \<Rightarrow> val list \<Rightarrow> val list \<Rightarrow> rule \<Rightarrow> res" where
  "evalRefRuleCompleteDoc call ctx ref path r =
     (if length path > length ref then Done Panicked
      else if length (drop (length path) ref) = 0 then ret_err (NotImplemented ref path r)
      else
        withIter (call (EvalContext (Child ctx r newHashMap)))
          (\<lambda>child.
             case Value r of
               None \<Rightarrow> Done Panicked
             | Some v \<Rightarrow>
                 (case v of
                    Object ps \<Rightarrow> evalRefRuleResult call (Some ctx) ref (drop (length path) ref) v
                  | Array xs \<Rightarrow> evalRefRuleResult call (Some ctx) ref (drop (length path) ref) v
                  | _ \<Rightarrow> ret_err (CannotDereference r))))"

definition evalRefRulePartialObjectDoc ::
  "(call \<Rightarrow> res) \<Rightarrow> TopDownContext \<Rightarrow> val list \<Rightarrow> val list \<Rightarrow> rule \<Rightarrow> res" where
  "evalRefRulePartialObjectDoc call ctx ref path r =
     (if length path > length ref then Done Panicked
      else
        (case drop (length path) ref of
           [] \<Rightarrow> ret_err (NotImplemented ref path r)
         | s0 # rest \<Rightarrow>
             if \<not> IsGround (plugValue s0 (Bindings ctx)) then
               withIterVar (call (EvalContext (Child ctx r newHashMap))) (Some ctx)
                 (\<lambda>ctx child.
                    case Key r of
                      None \<Rightarrow> (ctx, Done Panicked)
                    | Some rk \<Rightarrow>
                        (case Get (Bindings child) rk of
                           None \<Rightarrow> (ctx, ret_err (UnboundVariable (Key r)))
                         | Some key \<Rightarrow>
                             (case Value r of
                                None \<Rightarrow> (ctx, Done Panicked)
                              | Some rv \<Rightarrow>
                                  (case Get (Bindings child) rv of
                                     None \<Rightarrow> (ctx, ret_err (UnboundVariable (Value r)))
                                   | Some v \<Rightarrow>
                                       (case s0 of
                                          Var x \<Rightarrow>
                                            (case BindVarPtr ctx x key of
                                               Ok ctx' \<Rightarrow>
                                                 (ctx', evalRefRuleResult call ctx' ref
                                                          (drop (length path + 1) ref) v)
                                             | _ \<Rightarrow> (ctx, Done Panicked))
                                        | _ \<Rightarrow> (ctx, Done Panicked))))))
             else
               (case Key r of
                  None \<Rightarrow> Done Panicked
                | Some rk \<Rightarrow>
                    withIter
                      (call (EvalContext
                         (Child ctx r (Put newHashMap rk (plugValue s0 (Bindings ctx))))))
                      (\<lambda>child.
                         case Value r of
                           None \<Rightarrow> Done Panicked
                         | Some rv \<Rightarrow>
                             (case Get (Bindings child) rv of
                                None \<Rightarrow> ret_err (UnboundVariable (Value r))
                              | Some v \<Rightarrow>
                                  evalRefRuleResult call (Some ctx) ref
                                    (drop (length path + 1) ref) v)))))"

definition evalRefRulePartialSetDoc ::
  "(call \<Rightarrow> res) \<Rightarrow> TopDownContext \<Rightarrow> val list \<Rightarrow> val list \<Rightarrow> rule \<Rightarrow> res" where
  "evalRefRulePartialSetDoc call ctx ref path r =
     (if length path > length ref then Done Panicked
      else
        (case drop (length path) ref of
           [] \<Rightarrow> ret_err (NotImplemented ref path r)
         | s0 # rest \<Rightarrow>
             if length (s0 # rest) > 1 then ret_nil
             else
               let key = plugValue s0 (Bindings ctx) in
               if \<not> IsGround key then
                 withIterVar (call (EvalContext (Child ctx r newHashMap))) ctx
                   (\<lambda>ctx child.
                      case Key r of
                        None \<Rightarrow> (ctx, Done Panicked)
                      | Some rk \<Rightarrow>
                          (case Get (Bindings child) rk of
                             None \<Rightarrow> (ctx, ret_err (UnboundVariable (Key r)))
                           | Some v \<Rightarrow>
                               (case key of
                                  Var x \<Rightarrow>
                                    (case BindVar ctx x v of
                                       None \<Rightarrow> (ctx, Done Panicked)
                                     | Some ctx' \<Rightarrow>
                                         (BindRef ctx' (take (length path + 1) ref) (Boolean True),
                                          yield (BindRef ctx' (take (length path + 1) ref) (Boolean True))))
                                | _ \<Rightarrow> (ctx, Done Panicked))))
               else
                 (case Key r of
                    None \<Rightarrow> Done Panicked
                  | Some rk \<Rightarrow>
                      withIterVar (call (EvalContext (Child ctx r (Put newHashMap rk key)))) ctx
                        (\<lambda>ctx child.
                           (BindRef ctx (take (length path + 1) ref) (Boolean True),
                            yield (BindRef ctx (take (length path + 1) ref) (Boolean True)))))))"

definition evalRefRule ::
  "(call \<Rightarrow> res) \<Rightarrow> TopDownContext \<Rightarrow> val list \<Rightarrow> val list \<Rightarrow> rule \<Rightarrow> res" where
  "evalRefRule call ctx ref path r =
     (case DocKind r of
        PartialSetDoc \<Rightarrow> evalRefRulePartialSetDoc call ctx ref path r
      | PartialObjectDoc \<Rightarrow> evalRefRulePartialObjectDoc call ctx ref path r
      | CompleteDoc \<Rightarrow> evalRefRuleCompleteDoc call ctx ref path r)"

text \<open>
  \<open>evalRefRec\<close>. \<open>notFound err\<close> is the test of the three lookups: the error is a
  \<open>*StorageError\<close> and its code is \<open>StorageNotFoundErr\<close>. The keys of a map are enumerated
  in the order of its entries, the indices of a slice upwards.
\<close>

definition notFound :: "storage_error \<Rightarrow> bool" where
  "notFound err = (case err of StorageError code msg \<Rightarrow> code = StorageNotFoundErr | _ \<Rightarrow> False)"

definition evalRefRec ::
  "(call \<Rightarrow> res) \<Rightarrow> store \<Rightarrow> TopDownContext \<Rightarrow> val list \<Rightarrow> val list \<Rightarrow> res" where
  "evalRefRec call st ctx ref path =
     (case ref of
        [] \<Rightarrow>
          (case lookup st path of
             Inl err \<Rightarrow> if notFound err then ret_nil else ret_err (FromStore err)
           | Inr node \<Rightarrow> yield ctx)
      | head # tail \<Rightarrow>
          (case head of
             Var headVar \<Rightarrow>
               if length path = 0 then
                 (case Get (Bindings ctx) (Var headVar) of
                    Some binding \<Rightarrow> evalRefRuleResult call (Some ctx) ref tail binding
                  | None \<Rightarrow>
                      (case lookup st (path @ [head]) of
                         Inl err \<Rightarrow> if notFound err then ret_nil else ret_err (FromStore err)
                       | Inr node \<Rightarrow>
                           (case node of
                              NRules rules \<Rightarrow>
                                forEach rules (\<lambda>r. evalRefRule call ctx ref (path @ [head]) r)
                            | _ \<Rightarrow> call (EvalRefRec ctx tail (path @ [head])))))
               else
                 (case Get (Bindings ctx) (Var headVar) of
                    Some binding \<Rightarrow> call (EvalRefRec ctx tail (path @ [binding]))
                  | None \<Rightarrow>
                      (case lookup st path of
                         Inl err \<Rightarrow> if notFound err then ret_nil else ret_err (FromStore err)
                       | Inr node \<Rightarrow>
                           (case node of
                              NMap m \<Rightarrow>
                                forEach (map fst m)
                                  (\<lambda>key. case BindVar ctx headVar (String key) of
                                            None \<Rightarrow> Done Panicked
                                          | Some cpy \<Rightarrow>
                                              call (EvalRefRec cpy tail (path @ [String key])))
                            | NSlice xs \<Rightarrow>
                                forEach [0..<length xs]
                                  (\<lambda>i. case BindVar ctx headVar (Number (int i)) of
                                          None \<Rightarrow> Done Panicked
                                        | Some cpy \<Rightarrow>
                                            call (EvalRefRec cpy tail (path @ [Number (int i)])))
                            | _ \<Rightarrow> ret_err (NonComposite ref path))))
           | _ \<Rightarrow> call (EvalRefRec ctx tail (path @ [head]))))"

definition evalRef :: "(call \<Rightarrow> res) \<Rightarrow> store \<Rightarrow> TopDownContext \<Rightarrow> val list \<Rightarrow> res" where
  "evalRef call st ctx ref = evalRefRec call st ctx ref []"

section \<open>Terms\<close>

definition evalTermsRecObject ::
  "(call \<Rightarrow> res) \<Rightarrow> store \<Rightarrow> TopDownContext \<Rightarrow> (val \<times> val) list \<Rightarrow> nat \<Rightarrow> res" where
  "evalTermsRecObject call st ctx obj idx =
     (if idx \<ge> length obj then yield ctx
      else
        let value = (\<lambda>ctx.
              case snd (obj ! idx) of
                Ref v \<Rightarrow> withIter (evalRef call st ctx v)
                           (\<lambda>ctx. call (EvalTermsRecObject ctx obj (idx + 1)))
              | Array v \<Rightarrow> withIter (call (EvalTermsRecArray ctx v 0))
                             (\<lambda>ctx. call (EvalTermsRecObject ctx obj (idx + 1)))
              | Object v \<Rightarrow> withIter (call (EvalTermsRecObject ctx v 0))
                              (\<lambda>ctx. call (EvalTermsRecObject ctx obj (idx + 1)))
              | _ \<Rightarrow> call (EvalTermsRecObject ctx obj (idx + 1)))
        in
          (case fst (obj ! idx) of
             Ref k \<Rightarrow> withIter (evalRef call st ctx k) value
           | _ \<Rightarrow> value ctx))"

definition evalTermsRecArray ::
  "(call \<Rightarrow> res) \<Rightarrow> store \<Rightarrow> TopDownContext \<Rightarrow> val list \<Rightarrow> nat \<Rightarrow> res" where
  "evalTermsRecArray call st ctx arr idx =
     (if idx \<ge> length arr then yield ctx
      else
        (case arr ! idx of
           Ref v \<Rightarrow> withIter (evalRef call st ctx v)
                      (\<lambda>ctx. call (EvalTermsRecArray ctx arr (idx + 1)))
         | Array v \<Rightarrow> withIter (call (EvalTermsRecArray ctx v 0))
                        (\<lambda>ctx. call (EvalTermsRecArray ctx arr (idx + 1)))
         | Object v \<Rightarrow> withIter (call (EvalTermsRecObject ctx v 0))
                         (\<lambda>ctx. call (EvalTermsRecArray ctx arr (idx + 1)))
         | _ \<Rightarrow> call (EvalTermsRecArray ctx arr (idx + 1))))"

definition evalTermsRec ::
  "(call \<Rightarrow> res) \<Rightarrow> store \<Rightarrow> TopDownContext \<Rightarrow> val list \<Rightarrow> res" where
  "evalTermsRec call st ctx ts =
     (case ts of
        [] \<Rightarrow> yield ctx
      | head # tail \<Rightarrow>
          (case head of
             Ref r \<Rightarrow> withIter (evalRef call st ctx r) (\<lambda>ctx. call (EvalTermsRec ctx tail))
           | Array arr \<Rightarrow> withIter (call (EvalTermsRecArray ctx arr 0))
                            (\<lambda>ctx. call (EvalTermsRec ctx tail))
           | Object obj \<Rightarrow> withIter (call (EvalTermsRecObject ctx obj 0))
                             (\<lambda>ctx. call (EvalTermsRec ctx tail))
           | _ \<Rightarrow> call (EvalTermsRec ctx tail)))"

text \<open>\<open>indexAvailable\<close>; \<open>terms[1]\<close> and \<open>terms[2]\<close> are read once the operator is the equality
  operator, and panic when they are missing.\<close>

definition isRef :: "val \<Rightarrow> bool" where
  "isRef v = (case v of Ref r \<Rightarrow> True | _ \<Rightarrow> False)"

definition indexAvailable :: "TopDownContext \<Rightarrow> val list \<Rightarrow> bool result" where
  "indexAvailable ctx ts =
     (case ts of
        [] \<Rightarrow> Panic
      | t0 # rest \<Rightarrow>
          if \<not> Equal t0 (Var equalityBuiltin) then Ok False
          else
            (case rest of
               a # b # rest' \<Rightarrow>
                 (let pluggedA = plugTerm a (Bindings ctx);
                      pluggedB = plugTerm b (Bindings ctx)
                  in if isRef pluggedA \<and> \<not> IsGround pluggedA
                       then Ok (IsGround pluggedB \<or> isRef pluggedB)
                     else if isRef pluggedB \<and> \<not> IsGround pluggedB
                       then Ok (IsGround pluggedA \<or> isRef pluggedA)
                     else Ok False)
             | _ \<Rightarrow> Panic))"

text \<open>
  \<open>indexBuildLazy\<close>: \<open>Inr\<close> holds its boolean, \<open>Inl\<close> its error. \<open>virtualPrefix\<close> is its loop over
  the selectors: \<open>Inr False\<close> when a prefix of the reference is a set of rules, \<open>Inr True\<close>
  when the loop ends or breaks. The lookup of a prefix is written with \<open>lookup\<close> (the source
  drops the error of \<open>Underlying\<close> there).
\<close>

primrec virtualPrefix :: "store \<Rightarrow> val list \<Rightarrow> val list \<Rightarrow> storage_error + bool" where
  "virtualPrefix st [] tmp = Inr True"
| "virtualPrefix st (p # ps) tmp =
     (case lookup st tmp of
        Inl err \<Rightarrow> Inl err
      | Inr r \<Rightarrow>
          (case r of
             NRules rules \<Rightarrow> Inr False
           | _ \<Rightarrow> if \<not> IsGround p then Inr True else virtualPrefix st ps (tmp @ [p])))"

definition indexBuildLazy :: "store \<Rightarrow> TopDownContext \<Rightarrow> val list \<Rightarrow> storage_error + bool" where
  "indexBuildLazy st ctx ref =
     (if IsGround (Ref ref) then Inr False
      else if IndicesGet st ref then Inr True
      else if Get (Bindings ctx) (hd ref) \<noteq> None then Inr False
      else
        (case virtualPrefix st (tl ref) [hd ref] of
           Inl err \<Rightarrow> Inl err
         | Inr False \<Rightarrow> Inr False
         | Inr True \<Rightarrow>
             (case IndicesBuild st ref of Some err \<Rightarrow> Inl err | None \<Rightarrow> Inr True)))"

text \<open>
  \<open>evalTermsIndexed\<close>. The closure \<open>iterateIndex\<close> runs after \<open>indexBuildLazy\<close> has answered
  true, so the index exists (the contract of \<open>Build\<close>) and the error \<open>missing index\<close> does not
  arise. The callback of \<open>Index.Iter\<close> assigns to \<open>ctx.Bindings\<close> through the pointer, so each
  round updates the bindings of the round before; \<open>Iter\<close> is taken to stop at the first
  error of its callback and to return it.
\<close>

primrec indexIter :: "hashMap list \<Rightarrow> TopDownContext \<Rightarrow> res" where
  "indexIter [] ctx = ret_nil"
| "indexIter (bindings # rest) ctx =
     Emit (ctx\<lparr>Bindings := Update (Bindings ctx) bindings\<rparr>)
       (\<lambda>e. case e of
               None \<Rightarrow> indexIter rest (ctx\<lparr>Bindings := Update (Bindings ctx) bindings\<rparr>)
             | Some err \<Rightarrow> ret_err err)"

definition evalTermsIndexed ::
  "(call \<Rightarrow> res) \<Rightarrow> store \<Rightarrow> TopDownContext \<Rightarrow> val list \<Rightarrow> val \<Rightarrow> res" where
  "evalTermsIndexed call st ctx indexed nonIndexed =
     withIter (evalTermsRec call st ctx [nonIndexed])
       (\<lambda>ctx.
          case ValueToInterface st (plugTerm nonIndexed (Bindings ctx)) of
            Error err \<Rightarrow> ret_err err
          | Panic \<Rightarrow> Done Panicked
          | Ok nonIndexedValue \<Rightarrow> indexIter (IndexIter st indexed nonIndexedValue) ctx)"

text \<open>\<open>evalTerms\<close>. With the index available the first operand is tried, then the second;
  whether an operand is a reference is asked of the operand as written, not plugged.\<close>

definition evalTerms :: "(call \<Rightarrow> res) \<Rightarrow> store \<Rightarrow> TopDownContext \<Rightarrow> res" where
  "evalTerms call st ctx =
     (case Current ctx of
        None \<Rightarrow> Done Panicked
      | Some e \<Rightarrow>
          let ts = (case Terms e of TermList t \<Rightarrow> t | Term t \<Rightarrow> [t]);
              second = (\<lambda>u::unit.
                 case ts ! 2 of
                   Ref ref \<Rightarrow>
                     (case indexBuildLazy st ctx ref of
                        Inl err \<Rightarrow> ret_err (IndexBuildFailed err ref)
                      | Inr True \<Rightarrow> evalTermsIndexed call st ctx ref (ts ! 1)
                      | Inr False \<Rightarrow> evalTermsRec call st ctx ts)
                 | _ \<Rightarrow> evalTermsRec call st ctx ts)
          in
            (case indexAvailable ctx ts of
               Panic \<Rightarrow> Done Panicked
             | Error err \<Rightarrow> ret_err err
             | Ok False \<Rightarrow> evalTermsRec call st ctx ts
             | Ok True \<Rightarrow>
                 (case ts ! 1 of
                    Ref ref \<Rightarrow>
                      (case indexBuildLazy st ctx ref of
                         Inl err \<Rightarrow> ret_err (IndexBuildFailed err ref)
                       | Inr True \<Rightarrow> evalTermsIndexed call st ctx ref (ts ! 2)
                       | Inr False \<Rightarrow> second ())
                  | _ \<Rightarrow> second ())))"

section \<open>The proof search\<close>

text \<open>\<open>allGround b\<close>: every value bound in \<open>b\<close> is ground.\<close>

definition allGround :: "hashMap \<Rightarrow> bool" where
  "allGround b = list_all (\<lambda>kv. IsGround (snd kv)) b"

text \<open>\<open>evalContextNegated\<close>: the closure sets \<open>isTrue\<close> and returns nil, so \<open>isTrue\<close> holds iff
  it was called.\<close>

definition evalContextNegated :: "(call \<Rightarrow> res) \<Rightarrow> TopDownContext \<Rightarrow> res" where
  "evalContextNegated call ctx =
     (case Current ctx of
        None \<Rightarrow> Done Panicked
      | Some cur \<Rightarrow>
          let negation = ctx\<lparr>Query := [Complement cur], Index := 0\<rparr>;
              isTrue = (fst (collect (call (EvalContext negation))) \<noteq> [])
          in
            (case snd (collect (call (EvalContext negation))) of
               Return (Some err) \<Rightarrow> ret_err err
             | Return None \<Rightarrow> if \<not> isTrue then call (EvalContext (Step ctx)) else ret_nil
             | out \<Rightarrow> Done out))"

text \<open>\<open>evalContext\<close>, with \<open>unify\<close> for \<open>evalEqUnify\<close> at the budget at hand. A negative index
  makes \<open>ctx.Current()\<close> panic.\<close>

definition evalContext ::
  "(call \<Rightarrow> res) \<Rightarrow> (TopDownContext \<Rightarrow> val \<Rightarrow> val \<Rightarrow> res) \<Rightarrow> store \<Rightarrow> TopDownContext \<Rightarrow> res" where
  "evalContext call unify st ctx =
     (if Index ctx \<ge> int (length (Query ctx)) then
        (if Iter (Bindings ctx) (\<lambda>k v. \<not> IsGround v) then ret_nil else yield ctx)
      else
        (case Current ctx of
           None \<Rightarrow> Done Panicked
         | Some cur \<Rightarrow>
             if Negated cur then evalContextNegated call ctx
             else
               withIter (evalTerms call st ctx)
                 (\<lambda>ctx. withIter (evalExpr unify ctx)
                    (\<lambda>ctx. call (EvalContext (Step ctx))))))"

text \<open>The cycle closed: a call with budget \<open>Suc n\<close> runs the body of the function called, whose
  own calls have budget \<open>n\<close>.\<close>

primrec exec :: "nat \<Rightarrow> store \<Rightarrow> call \<Rightarrow> res" where
  "exec 0 st c = Done OutOfFuel"
| "exec (Suc n) st c =
     (case c of
        EvalContext ctx \<Rightarrow> evalContext (exec n st) (evalEqUnify n st) st ctx
      | EvalRefRec ctx ref path \<Rightarrow> evalRefRec (exec n st) st ctx ref path
      | EvalTermsRec ctx ts \<Rightarrow> evalTermsRec (exec n st) st ctx ts
      | EvalTermsRecArray ctx arr idx \<Rightarrow> evalTermsRecArray (exec n st) st ctx arr idx
      | EvalTermsRecObject ctx obj idx \<Rightarrow> evalTermsRecObject (exec n st) st ctx obj idx)"

text \<open>\<open>TopDown\<close> is \<open>evalContext\<close>.\<close>

definition TopDown :: "nat \<Rightarrow> store \<Rightarrow> TopDownContext \<Rightarrow> res" where
  "TopDown n st ctx = exec n st (EvalContext ctx)"

section \<open>The query entry\<close>

text \<open>
  \<open>TopDownQuery\<close> returns a Go value and an error: here \<open>Some (Ok d)\<close> for the value,
  \<open>Some (Error e)\<close> for the error, \<open>Some Panic\<close> for a panic, and \<open>None\<close> when the budget of
  the evaluation is used up. The value is the sentinel \<open>Undefined{}\<close> or a document.
\<close>

datatype document = Undefined | Document native

definition answer :: "outcome \<Rightarrow> document result \<Rightarrow> document result option" where
  "answer out d =
     (case out of
        Return None \<Rightarrow> Some d
      | Return (Some err) \<Rightarrow> Some (Error err)
      | Panicked \<Rightarrow> Some Panic
      | OutOfFuel \<Rightarrow> None)"

definition topDownQueryCompleteDoc :: "nat \<Rightarrow> store \<Rightarrow> rule list \<Rightarrow> document result option" where
  "topDownQueryCompleteDoc n st rules =
     (if length rules > 1 then Some (Error (MultipleConflictingRules (Name (hd rules))))
      else
        (case rules of
           [] \<Rightarrow> Some Panic
         | r # rest \<Rightarrow>
             (case runIter (TopDown n st \<lparr>Query = Body r, Bindings = newHashMap, Index = 0\<rparr>)
                     (\<lambda>ctx isTrue. (Ok (), True)) False of
                (out, isTrue) \<Rightarrow>
                  answer out
                    (if \<not> isTrue then Ok Undefined
                     else
                       (case Value r of
                          None \<Rightarrow> Panic
                        | Some v \<Rightarrow>
                            (case ValueToInterface st v of
                               Ok x \<Rightarrow> Ok (Document x)
                             | Error err \<Rightarrow> Error err
                             | Panic \<Rightarrow> Panic))))))"

text \<open>The loop over the rules of a partial document: each rule is evaluated under its
  closure, on the result so far; the first error ends the query.\<close>

primrec forRules :: "rule list \<Rightarrow> (rule \<Rightarrow> 's \<Rightarrow> outcome \<times> 's) \<Rightarrow> 's \<Rightarrow> outcome \<times> 's" where
  "forRules [] f s = (Return None, s)"
| "forRules (r # rs) f s =
     (case fst (f r s) of
        Return None \<Rightarrow> forRules rs f (snd (f r s))
      | out \<Rightarrow> (out, snd (f r s)))"

text \<open>The closure of \<open>topDownQueryPartialObjectDoc\<close>; the result map is an association list,
  and \<open>result[asStr] = value\<close> replaces the entry of a key that is present.\<close>

definition partialObjectIter ::
  "store \<Rightarrow> val \<Rightarrow> val \<Rightarrow> ((string \<times> native) list) TopDownIterator" where
  "partialObjectIter st key v ctx result =
     (case dereferenceVar st key ctx of
        Error err \<Rightarrow> (Error err, result)
      | Panic \<Rightarrow> (Panic, result)
      | Ok k \<Rightarrow>
          (case k of
             NString asStr \<Rightarrow>
               (case dereferenceVar st v ctx of
                  Error err \<Rightarrow> (Error err, result)
                | Panic \<Rightarrow> (Panic, result)
                | Ok v' \<Rightarrow> (Ok (), AList.update asStr v' result))
           | _ \<Rightarrow> (Error (ProduceNonStringKey k), result)))"

definition topDownQueryPartialObjectDoc :: "nat \<Rightarrow> store \<Rightarrow> rule list \<Rightarrow> document result option" where
  "topDownQueryPartialObjectDoc n st rules =
     (case forRules rules
             (\<lambda>r result.
                case Key r of
                  Some (Var key) \<Rightarrow>
                    (case Value r of
                       Some (Var v) \<Rightarrow>
                         runIter (TopDown n st \<lparr>Query = Body r, Bindings = newHashMap, Index = 0\<rparr>)
                           (partialObjectIter st (Var key) (Var v)) result
                     | _ \<Rightarrow> (Panicked, result))
                | _ \<Rightarrow> (Panicked, result))
             [] of
        (out, result) \<Rightarrow> answer out (Ok (Document (NMap result))))"

text \<open>The closure of \<open>topDownQueryPartialSetDoc\<close>: the value is appended to the result.\<close>

definition partialSetIter :: "store \<Rightarrow> val \<Rightarrow> (native list) TopDownIterator" where
  "partialSetIter st key ctx result =
     (case dereferenceVar st key ctx of
        Error err \<Rightarrow> (Error err, result)
      | Panic \<Rightarrow> (Panic, result)
      | Ok v \<Rightarrow> (Ok (), result @ [v]))"

definition topDownQueryPartialSetDoc :: "nat \<Rightarrow> store \<Rightarrow> rule list \<Rightarrow> document result option" where
  "topDownQueryPartialSetDoc n st rules =
     (case forRules rules
             (\<lambda>r result.
                case Key r of
                  Some (Var key) \<Rightarrow>
                    runIter (TopDown n st \<lparr>Query = Body r, Bindings = newHashMap, Index = 0\<rparr>)
                      (partialSetIter st (Var key)) result
                | _ \<Rightarrow> (Panicked, result))
             [] of
        (out, result) \<Rightarrow> answer out (Ok (Document (NSlice result))))"

text \<open>\<open>TopDownQuery\<close>: the path is a list of strings; its head names the root document
  (\<open>params.Path[0]\<close> panics on an empty path).\<close>

definition TopDownQuery :: "nat \<Rightarrow> store \<Rightarrow> string list \<Rightarrow> document result option" where
  "TopDownQuery n st path =
     (case path of
        [] \<Rightarrow> Some Panic
      | p0 # ps \<Rightarrow>
          (case lookup st (Var p0 # map String ps) of
             Inl err \<Rightarrow> Some (Error (FromStore err))
           | Inr node \<Rightarrow>
               (case node of
                  NRules rules \<Rightarrow>
                    (if length rules = 0 then Some (Ok Undefined)
                     else
                       (case DocKind (hd rules) of
                          CompleteDoc \<Rightarrow> topDownQueryCompleteDoc n st rules
                        | PartialObjectDoc \<Rightarrow> topDownQueryPartialObjectDoc n st rules
                        | PartialSetDoc \<Rightarrow> topDownQueryPartialSetDoc n st rules))
                | _ \<Rightarrow> Some (Ok (Document node)))))"

text \<open>
  For the statements about the partial documents: the keys (the pairs of a key and a value)
  that the closure of a query accepts from a list of contexts, in order: those whose
  dereference succeeds, with a string key in the case of an object; and the context a query
  starts the body of a rule from.
\<close>

definition acceptedKeys :: "store \<Rightarrow> val \<Rightarrow> TopDownContext list \<Rightarrow> native list" where
  "acceptedKeys st key cs =
     concat (map (\<lambda>c. case dereferenceVar st key c of Ok v \<Rightarrow> [v] | _ \<Rightarrow> []) cs)"

definition acceptedPairs :: "store \<Rightarrow> val \<Rightarrow> val \<Rightarrow> TopDownContext list \<Rightarrow> (string \<times> native) list" where
  "acceptedPairs st key v cs =
     concat (map (\<lambda>c. case dereferenceVar st key c of
                         Ok (NString asStr) \<Rightarrow>
                           (case dereferenceVar st v c of Ok v' \<Rightarrow> [(asStr, v')] | _ \<Rightarrow> [])
                       | _ \<Rightarrow> []) cs)"

definition ruleContext :: "rule \<Rightarrow> TopDownContext" where
  "ruleContext r = \<lparr>Query = Body r, Bindings = newHashMap, Index = 0\<rparr>"

section \<open>Where an error comes from\<close>

text \<open>
  For the statement that the error \<open>multiple conflicting rules\<close> is made by the query entry
  only: \<open>noConflict r\<close> says that the run \<open>r\<close> does not return that error as long as the
  iterator does not answer with it.
\<close>

definition notConflict :: "error option \<Rightarrow> bool" where
  "notConflict e = (case e of Some (MultipleConflictingRules nm) \<Rightarrow> False | _ \<Rightarrow> True)"

primrec noConflict :: "res \<Rightarrow> bool" where
  "noConflict (Done out) = (case out of Return e \<Rightarrow> notConflict e | _ \<Rightarrow> True)"
| "noConflict (Emit c k) = (\<forall>e. notConflict e \<longrightarrow> noConflict (k e))"

definition noConflictStep :: "'a step \<Rightarrow> bool" where
  "noConflictStep s = (case s of Stop (Return e) \<Rightarrow> notConflict e | _ \<Rightarrow> True)"

section \<open>Concrete inputs\<close>

text \<open>A store with no document (every lookup is not found) and no index, a store whose
  every lookup fails with another error, and the empty context.\<close>

definition store0 :: store where
  "store0 = \<lparr>lookup = (\<lambda>r. Inl (StorageError StorageNotFoundErr [])), IndicesGet = (\<lambda>r. False),
     IndicesBuild = (\<lambda>r. None), IndexIter = (\<lambda>r v. [])\<rparr>"


definition ctx0 :: TopDownContext where
  "ctx0 = \<lparr>Query = [], Bindings = newHashMap, Index = 0\<rparr>"

text \<open>The queries \<open>x = 1\<close>, \<open>x = y\<close> and \<open>x = data.a\<close>.\<close>

definition xIsOne :: TopDownContext where
  "xIsOne = \<lparr>Query = [\<lparr>Negated = False, Terms = TermList [Var ''='', Var ''x'', Number 1]\<rparr>],
             Bindings = newHashMap, Index = 0\<rparr>"

definition xIsY :: TopDownContext where
  "xIsY = \<lparr>Query = [\<lparr>Negated = False, Terms = TermList [Var ''='', Var ''x'', Var ''y'']\<rparr>],
             Bindings = newHashMap, Index = 0\<rparr>"


text \<open>The queries \<open>not false\<close>, \<open>not true\<close> and \<open>not 5\<close>.\<close>

definition notFalse :: TopDownContext where
  "notFalse = \<lparr>Query = [\<lparr>Negated = True, Terms = Term (Boolean False)\<rparr>], Bindings = newHashMap, Index = 0\<rparr>"

definition notTrue :: TopDownContext where
  "notTrue = \<lparr>Query = [\<lparr>Negated = True, Terms = Term (Boolean True)\<rparr>], Bindings = newHashMap, Index = 0\<rparr>"

definition notFive :: TopDownContext where
  "notFive = \<lparr>Query = [\<lparr>Negated = True, Terms = Term (Number 5)\<rparr>], Bindings = newHashMap, Index = 0\<rparr>"

text \<open>A store with the document \<open>a = [[1], 2]\<close>, and the query \<open>not [a[i][j]] = [1]\<close>.\<close>

definition storeA :: store where
  "storeA = \<lparr>lookup = (\<lambda>r.
       if r = [Var ''a''] then Inr (NSlice [NSlice [NNumber 1], NNumber 2])
       else if r = [Var ''a'', Number 0] then Inr (NSlice [NNumber 1])
       else if r = [Var ''a'', Number 0, Number 0] then Inr (NNumber 1)
       else if r = [Var ''a'', Number 1] then Inr (NNumber 2)
       else Inl (StorageError StorageNotFoundErr [])),
     IndicesGet = (\<lambda>r. False), IndicesBuild = (\<lambda>r. None), IndexIter = (\<lambda>r v. [])\<rparr>"

definition notA :: TopDownContext where
  "notA = \<lparr>Query = [\<lparr>Negated = True, Terms = TermList [Var ''='', Array [Ref [Var ''a'', Var ''i'', Var ''j'']], Array [Number 1]]\<rparr>],
            Bindings = newHashMap, Index = 0\<rparr>"

text \<open>The rules \<open>p[x] :- x = 1\<close> (a partial set), \<open>p[k] = v :- k = "a", v = 1\<close> and
  \<open>p[k] = v :- k = "a", v = 2\<close> (partial objects), \<open>pi = 3 :- true\<close>, \<open>never = 3 :- false\<close>
  and \<open>p = true :- 5\<close> (complete documents), and a store that holds the complete ones.\<close>

definition pIsOne :: rule where
  "pIsOne = \<lparr>Name = ''p'', Key = Some (Var ''x''), Value = None,
            Body = [\<lparr>Negated = False, Terms = TermList [Var ''='', Var ''x'', Number 1]\<rparr>]\<rparr>"

definition aIsOne :: rule where
  "aIsOne = \<lparr>Name = ''p'', Key = Some (Var ''k''), Value = Some (Var ''v''),
            Body = [\<lparr>Negated = False, Terms = TermList [Var ''='', Var ''k'', String ''a'']\<rparr>,
                    \<lparr>Negated = False, Terms = TermList [Var ''='', Var ''v'', Number 1]\<rparr>]\<rparr>"

definition aIsTwo :: rule where
  "aIsTwo = \<lparr>Name = ''p'', Key = Some (Var ''k''), Value = Some (Var ''v''),
            Body = [\<lparr>Negated = False, Terms = TermList [Var ''='', Var ''k'', String ''a'']\<rparr>,
                    \<lparr>Negated = False, Terms = TermList [Var ''='', Var ''v'', Number 2]\<rparr>]\<rparr>"

definition piRule :: rule where
  "piRule = \<lparr>Name = ''pi'', Key = None, Value = Some (Number 3),
              Body = [\<lparr>Negated = False, Terms = Term (Boolean True)\<rparr>]\<rparr>"

definition neverRule :: rule where
  "neverRule = \<lparr>Name = ''never'', Key = None, Value = Some (Number 3),
              Body = [\<lparr>Negated = False, Terms = Term (Boolean False)\<rparr>]\<rparr>"

definition ruleFive :: rule where
  "ruleFive = \<lparr>Name = ''p'', Key = None, Value = Some (Boolean True),
               Body = [\<lparr>Negated = False, Terms = Term (Number 5)\<rparr>]\<rparr>"

definition storeQ :: store where
  "storeQ = \<lparr>lookup = (\<lambda>r.
       if r = [Var ''pi''] then Inr (NRules [piRule])
       else if r = [Var ''never''] then Inr (NRules [neverRule])
       else if r = [Var ''twice''] then Inr (NRules [piRule, neverRule])
       else if r = [Var ''five''] then Inr (NRules [ruleFive])
       else Inl (StorageError StorageNotFoundErr [])),
     IndicesGet = (\<lambda>r. False), IndicesBuild = (\<lambda>r. None), IndexIter = (\<lambda>r v. [])\<rparr>"

section \<open>Facts about runs\<close>

lemma emits_Done [simp]: "\<not> emits (Done out) c"
  by (auto elim: emits.cases)

lemma emits_Emit: "emits (Emit c k) c' \<longleftrightarrow> c' = c \<or> (\<exists>e. emits (k e) c')"
  by (auto elim: emits.cases intro: emits.intros)

lemma emits_yield [simp]: "emits (yield c) c' \<longleftrightarrow> c' = c"
  by (simp add: yield_def emits_Emit)

lemma emits_ret_nil [simp]: "\<not> emits ret_nil c"
  by (simp add: ret_nil_def)

lemma emits_ret_err [simp]: "\<not> emits (ret_err e) c"
  by (simp add: ret_err_def)

lemma emits_andThen: "emits (andThen r f) c \<Longrightarrow> emits r c \<or> (\<exists>e. emits (f e) c)"
proof (induction r)
  case (Done out)
  then show ?case by (cases out) auto
next
  case (Emit c0 k)
  then show ?case by (fastforce simp: emits_Emit)
qed

lemma emits_withIter: "emits (withIter r body) c \<Longrightarrow> \<exists>c0. emits r c0 \<and> emits (body c0) c"
proof (induction r)
  case (Done out)
  then show ?case by simp
next
  case (Emit c0 k)
  from Emit.prems have "emits (body c0) c \<or> (\<exists>e. emits (withIter (k e) body) c)"
    using emits_andThen by fastforce
  then show ?case
  proof
    assume "emits (body c0) c"
    then show ?thesis by (auto simp: emits_Emit)
  next
    assume "\<exists>e. emits (withIter (k e) body) c"
    then obtain e where "emits (withIter (k e) body) c" ..
    from Emit.IH[OF _ this] show ?thesis by (auto simp: emits_Emit)
  qed
qed

lemma emits_withIterVar:
  "emits (withIterVar r v body) c \<Longrightarrow> \<exists>c0 v0. emits r c0 \<and> emits (snd (body v0 c0)) c"
proof (induction r arbitrary: v)
  case (Done out)
  then show ?case by simp
next
  case (Emit c0 k)
  from Emit.prems have "emits (snd (body v c0)) c \<or> (\<exists>e. emits (withIterVar (k e) (fst (body v c0)) body) c)"
    using emits_andThen by fastforce
  then show ?case
  proof
    assume "emits (snd (body v c0)) c"
    then show ?thesis by (auto simp: emits_Emit)
  next
    assume "\<exists>e. emits (withIterVar (k e) (fst (body v c0)) body) c"
    then obtain e where "emits (withIterVar (k e) (fst (body v c0)) body) c" ..
    from Emit.IH[OF _ this] show ?thesis by (auto simp: emits_Emit)
  qed
qed

lemma calls_emits: "c \<in> set (calls r iter s) \<Longrightarrow> emits r c"
proof (induction r arbitrary: s)
  case (Done out) then show ?case by simp
next
  case (Emit c0 k)
  then show ?case
    by (auto simp: emits_Emit split: result.splits)
qed

lemma collect_emits: "c \<in> set (fst (collect r)) \<Longrightarrow> emits r c"
proof (induction r)
  case (Done out) then show ?case by simp
next
  case (Emit c0 k)
  then show ?case by (auto simp: emits_Emit)
qed




lemma Get_Put_same [simp]: "Get (Put m k v) k = Some v"
  by (simp add: Get_def Put_def update_conv)

lemma Get_Put_other [simp]: "k' \<noteq> k \<Longrightarrow> Get (Put m k v) k' = Get m k'"
  by (simp add: Get_def Put_def update_conv)

lemma BindVar_binds:
  "BindVar ctx x v = Some ctx' \<Longrightarrow> v \<noteq> Var x \<Longrightarrow> Get (Bindings ctx') (Var x) = Some v"
  by (auto simp: BindVar_def Let_def split: if_splits)

lemma BindRef_binds [simp]: "Get (Bindings (BindRef ctx ref v)) (Ref ref) = Some v"
  by (simp add: BindRef_def Copy_def)

lemma BindRef_keeps_var [simp]: "Get (Bindings (BindRef ctx ref v)) (Var x) = Get (Bindings ctx) (Var x)"
  by (simp add: BindRef_def Copy_def)

lemma allGround_Get: "allGround b \<Longrightarrow> Get b k = Some v \<Longrightarrow> IsGround v"
  unfolding allGround_def Get_def list_all_iff using map_of_SomeD by fastforce

section \<open>Ground completeness\<close>

lemma Iter_nonground: "Iter b (\<lambda>k v. \<not> IsGround v) \<longleftrightarrow> \<not> allGround b"
  by (simp add: Iter_def allGround_def list_ex_iff list_all_iff)

lemma evalContext_end:
  "int (length (Query ctx)) \<le> Index ctx \<Longrightarrow>
     evalContext call unify st ctx = (if allGround (Bindings ctx) then yield ctx else ret_nil)"
  by (simp add: evalContext_def Iter_nonground)

lemma emits_evalContextNegated:
  "emits (evalContextNegated call ctx) c \<Longrightarrow> emits (call (EvalContext (Step ctx))) c"
  by (auto simp: evalContextNegated_def Let_def split: option.splits outcome.splits if_splits)

lemma emits_evalContext:
  assumes "emits (evalContext call unify st ctx) c"
  shows "(c = ctx \<and> int (length (Query ctx)) \<le> Index ctx \<and> allGround (Bindings ctx))
         \<or> (\<exists>c'. emits (call (EvalContext c')) c)"
proof (cases "int (length (Query ctx)) \<le> Index ctx")
  case True
  with assms show ?thesis by (auto simp: evalContext_end split: if_splits)
next
  case False
  show ?thesis
  proof (cases "Current ctx")
    case None
    with assms False show ?thesis by (simp add: evalContext_def)
  next
    case (Some cur)
    show ?thesis
    proof (cases "Negated cur")
      case True
      with assms False Some have "emits (evalContextNegated call ctx) c" by (simp add: evalContext_def)
      from emits_evalContextNegated[OF this] show ?thesis by blast
    next
      case neg: False
      with assms False Some have "emits (withIter (evalTerms call st ctx)
                 (\<lambda>ctx. withIter (evalExpr unify ctx) (\<lambda>ctx. call (EvalContext (Step ctx))))) c"
        by (simp add: evalContext_def)
      then obtain c1 where "emits (withIter (evalExpr unify c1) (\<lambda>ctx. call (EvalContext (Step ctx)))) c"
        using emits_withIter by blast
      then obtain c2 where "emits (call (EvalContext (Step c2))) c"
        using emits_withIter by blast
      then show ?thesis by blast
    qed
  qed
qed

lemma emits_exec_ground:
  "emits (exec n st (EvalContext ctx)) c \<Longrightarrow> allGround (Bindings c)"
proof (induction n arbitrary: ctx)
  case 0
  then show ?case by simp
next
  case (Suc n)
  from Suc.prems have "emits (evalContext (exec n st) (evalEqUnify n st) st ctx) c" by simp
  from emits_evalContext[OF this] Suc.IH show ?case by blast
qed

text \<open>
  Claim C1. At the end of the body (\<open>Index\<close> at least the length of the query) \<open>evalContext\<close>
  calls the iterator, once and with its own context, iff every value bound in the context
  is ground; if some value is not ground it returns nil without a call. So every context
  that the iterator of \<open>TopDown\<close> is called with has ground bindings only, whatever the
  iterator answers.
\<close>

theorem ground_completeness:
  "(int (length (Query ctx)) \<le> Index ctx \<longrightarrow>
      TopDown (Suc n) st ctx = (if allGround (Bindings ctx) then yield ctx else ret_nil)
      \<and> calls (TopDown (Suc n) st ctx) iter s = (if allGround (Bindings ctx) then [ctx] else [])
      \<and> (\<not> allGround (Bindings ctx) \<longrightarrow> runIter (TopDown (Suc n) st ctx) iter s = (Return None, s)))
   \<and> (\<forall>c \<in> set (calls (TopDown n st ctx) iter s). allGround (Bindings c))
   \<and> (\<forall>c. emits (TopDown n st ctx) c \<longrightarrow> allGround (Bindings c))"
proof -
  have e: "\<forall>c. emits (TopDown n st ctx) c \<longrightarrow> allGround (Bindings c)"
    using emits_exec_ground[of n st ctx] by (simp add: TopDown_def)
  have c: "\<forall>c \<in> set (calls (TopDown n st ctx) iter s). allGround (Bindings c)"
    using e by (auto dest: calls_emits)
  have b: "int (length (Query ctx)) \<le> Index ctx \<longrightarrow>
      TopDown (Suc n) st ctx = (if allGround (Bindings ctx) then yield ctx else ret_nil)
      \<and> calls (TopDown (Suc n) st ctx) iter s = (if allGround (Bindings ctx) then [ctx] else [])
      \<and> (\<not> allGround (Bindings ctx) \<longrightarrow> runIter (TopDown (Suc n) st ctx) iter s = (Return None, s))"
    by (auto simp: TopDown_def evalContext_end yield_def ret_nil_def split: result.splits)
  from b c e show ?thesis by blast
qed

text \<open>Instances: \<open>x = 1\<close> is delivered once, with \<open>x\<close> bound to 1; \<open>x = y\<close> binds \<open>x\<close> to \<open>y\<close>,
  which is not ground, and nothing is delivered.\<close>

lemma xIsOne_calls:
  "calls (TopDown 5 store0 xIsOne) (\<lambda>c s. (Ok (), s)) () = [xIsOne\<lparr>Bindings := [(Var ''x'', Number 1)], Index := 1\<rparr>]"
  by code_simp

theorem ground_completeness_witness:
  "calls (TopDown 5 store0 xIsOne) (\<lambda>c s. (Ok (), s)) () = [xIsOne\<lparr>Bindings := [(Var ''x'', Number 1)], Index := 1\<rparr>]
   \<and> allGround [(Var ''x'', Number 1)]
   \<and> TopDown 1 store0 (xIsY\<lparr>Bindings := [(Var ''x'', Var ''y'')], Index := 1\<rparr>) = ret_nil
   \<and> calls (TopDown 5 store0 xIsY) (\<lambda>c s. (Ok (), s)) () = []"
proof -
  have 1: "\<forall>c \<in> set (calls (TopDown 5 store0 xIsOne) (\<lambda>c s. (Ok (), s)) ()). allGround (Bindings c)"
    using ground_completeness[of xIsOne 5 store0 "\<lambda>c s. (Ok (), s)" "()"] by blast
  have 2: "allGround [(Var ''x'', Number 1)]" using 1 by (simp add: xIsOne_calls)
  have 3: "TopDown 1 store0 (xIsY\<lparr>Bindings := [(Var ''x'', Var ''y'')], Index := 1\<rparr>) = ret_nil"
    using ground_completeness[of "xIsY\<lparr>Bindings := [(Var ''x'', Var ''y'')], Index := 1\<rparr>" 0 store0 "\<lambda>c s. (Ok (), s)" "()"]
    by (simp add: xIsY_def allGround_def)
  have 4: "calls (TopDown 5 store0 xIsY) (\<lambda>c s. (Ok (), s)) () = []" by code_simp
  from 1 2 3 4 xIsOne_calls show ?thesis by simp
qed

section \<open>Substitution is idempotent on flat environments\<close>

text \<open>
  Claim C2, as amended. \<open>plugValue\<close> makes one pass: a binding is returned as it is and is
  not plugged again. So plugging twice is plugging once for every value under an
  environment \<open>b\<close> that is flat, that is: every bound value is left unchanged by plugging
  under \<open>b\<close> (as \<open>BindVar\<close> arranges by plugging the old bindings with each new one), and an
  unbound reference that is not ground does not plug to a reference that \<open>b\<close> binds.
\<close>

theorem plug_idempotent_flat:
  assumes fixed: "\<And>k v. Get b k = Some v \<Longrightarrow> plugValue v b = v"
    and stable: "\<And>r. Get b (Ref r) = None \<Longrightarrow> \<not> IsGround (Ref r) \<Longrightarrow> Get b (plugValue (Ref r) b) = None"
  shows "plugValue (plugValue v b) b = plugValue v b"
proof (induction v)
  case (Var x)
  show ?case
  proof (cases "Get b (Var x)")
    case None then show ?thesis by simp
  next
    case (Some w) with fixed[OF Some] show ?thesis by simp
  qed
next
  case (Array xs)
  then show ?case by simp
next
  case (Object ps)
  have "\<And>p. p \<in> set ps \<Longrightarrow> plugValue (plugValue (fst p) b) b = plugValue (fst p) b \<and> plugValue (plugValue (snd p) b) b = plugValue (snd p) b"
  proof -
    fix p assume p: "p \<in> set ps"
    obtain k w where kw: "p = (k, w)" by (cases p)
    from p kw Object.IH[of p k] Object.IH[of p w] show "plugValue (plugValue (fst p) b) b = plugValue (fst p) b \<and> plugValue (plugValue (snd p) b) b = plugValue (snd p) b"
      by simp
  qed
  then show ?case by simp
next
  case (Ref r)
  show ?case
  proof (cases "Get b (Ref r)")
    case (Some w) with fixed[OF Some] show ?thesis by simp
  next
    case None
    show ?thesis
    proof (cases "IsGround (Ref r)")
      case True with None show ?thesis by simp
    next
      case False
      then obtain h ts where r: "r = h # ts" by (cases r) auto
      let ?r' = "h # map (\<lambda>p. plugValue p b) ts"
      have pv: "plugValue (Ref r) b = Ref ?r'" using None False r by simp
      have unb: "Get b (Ref ?r') = None" using stable[OF None False] pv by simp
      have idem: "map (\<lambda>p. plugValue p b) (map (\<lambda>p. plugValue p b) ts) = map (\<lambda>p. plugValue p b) ts"
        using Ref.IH r by simp
      have "plugValue (Ref ?r') b = Ref ?r'"
        using unb idem by simp
      with pv show ?thesis by simp
    qed
  qed
qed simp_all

text \<open>An instance: \<open>x\<close> bound to 1, plugged into \<open>[x, data[x]]\<close>.\<close>

theorem plug_idempotent_flat_witness:
  "plugValue (plugValue (Array [Var ''x'', Ref [Var ''data'', Var ''x'']]) [(Var ''x'', Number 1)]) [(Var ''x'', Number 1)]
     = plugValue (Array [Var ''x'', Ref [Var ''data'', Var ''x'']]) [(Var ''x'', Number 1)]
   \<and> plugValue (Array [Var ''x'', Ref [Var ''data'', Var ''x'']]) [(Var ''x'', Number 1)]
     = Array [Number 1, Ref [Var ''data'', Number 1]]"
proof -
  have fixed: "\<And>k v. Get [(Var ''x'', Number 1)] k = Some v \<Longrightarrow> plugValue v [(Var ''x'', Number 1)] = v"
    by (auto simp: Get_def split: if_splits)
  have stable: "\<And>r. Get [(Var ''x'', Number 1)] (Ref r) = None \<Longrightarrow> \<not> IsGround (Ref r)
      \<Longrightarrow> Get [(Var ''x'', Number 1)] (plugValue (Ref r) [(Var ''x'', Number 1)]) = None"
    by (auto simp: Get_def split: list.splits)
  show ?thesis
    using plug_idempotent_flat[of "[(Var ''x'', Number 1)]" "Array [Var ''x'', Ref [Var ''data'', Var ''x'']]", OF fixed stable]
    by (simp add: Get_def)
qed

text \<open>Without flatness the claim fails: with \<open>x\<close> bound to \<open>y\<close> and \<open>y\<close> bound to 1, plugging
  \<open>x\<close> gives \<open>y\<close> and plugging again gives 1.\<close>

theorem plug_not_idempotent:
  "plugValue (plugValue (Var ''x'') [(Var ''x'', Var ''y''), (Var ''y'', Number 1)])
       [(Var ''x'', Var ''y''), (Var ''y'', Number 1)]
     \<noteq> plugValue (Var ''x'') [(Var ''x'', Var ''y''), (Var ''y'', Number 1)]"
  by (simp add: Get_def)

section \<open>The occurs check\<close>

lemma plugValue_empty: "plugValue v [] = v"
proof (induction v)
  case (Ref r)
  then show ?case by (cases r) (simp_all add: Get_def map_idI)
next
  case (Object ps)
  have "\<And>p. p \<in> set ps \<Longrightarrow> (plugValue (fst p) [], plugValue (snd p) []) = p"
  proof -
    fix p assume p: "p \<in> set ps"
    obtain k w where kw: "p = (k, w)" by (cases p)
    from p kw Object.IH[of p k] Object.IH[of p w] show "(plugValue (fst p) [], plugValue (snd p) []) = p" by simp
  qed
  then show ?case by (simp add: map_idI)
qed (simp_all add: Get_def map_idI)

text \<open>
  Claim C3, as amended. When the variable \<open>x\<close> occurs in the value \<open>v\<close> (the walk of \<open>BindVar\<close>
  finds it) and \<open>v\<close> is not \<open>x\<close> itself, \<open>BindVar\<close> returns the nil context, so
  \<open>evalEqUnifyVar\<close> returns nil without calling the iterator; and so does the equality
  \<open>x = v\<close> in a context with no bindings.
\<close>

theorem occurs_check:
  assumes "walkValue v (\<lambda>other. Var x = other)" and "v \<noteq> Var x"
  shows "BindVar ctx x v = None \<and> evalEqUnifyVar ctx x v = ret_nil
         \<and> (Bindings ctx = newHashMap \<longrightarrow> evalEqUnify (Suc n) st ctx (Var x) v = ret_nil)"
proof -
  have b: "BindVar ctx x v = None" using assms by (auto simp: BindVar_def)
  then have u: "evalEqUnifyVar ctx x v = ret_nil" by (simp add: evalEqUnifyVar_def)
  show ?thesis using b u
    by (simp add: evalEqUnifyBody_def newHashMap_def Get_def plugValue_empty)
qed

text \<open>An instance: \<open>x = [1, x]\<close>.\<close>

theorem occurs_check_witness:
  "walkValue (Array [Number 1, Var ''x'']) (\<lambda>other. Var ''x'' = other)
   \<and> BindVar ctx0 ''x'' (Array [Number 1, Var ''x'']) = None
   \<and> evalEqUnifyVar ctx0 ''x'' (Array [Number 1, Var ''x'']) = ret_nil
   \<and> evalEqUnify (Suc 0) store0 ctx0 (Var ''x'') (Array [Number 1, Var ''x'']) = ret_nil"
proof -
  have w: "walkValue (Array [Number 1, Var ''x'']) (\<lambda>other. Var ''x'' = other)" by simp
  have n: "Array [Number 1, Var ''x''] \<noteq> Var ''x''" by simp
  show ?thesis
    using w occurs_check[OF w n, of ctx0 0 store0] by (simp add: ctx0_def)
qed

text \<open>The value \<open>x\<close> itself contains \<open>x\<close> for the walk, and \<open>x = x\<close> succeeds: \<open>BindVar\<close>
  returns the context unchanged and the iterator is called with it.\<close>

theorem occurs_self_succeeds:
  "walkValue (Var ''x'') (\<lambda>other. Var ''x'' = other)
   \<and> evalEqUnifyVar ctx0 ''x'' (Var ''x'') = yield ctx0
   \<and> yield ctx0 \<noteq> ret_nil"
  by (simp add: evalEqUnifyVar_def BindVar_def yield_def ret_nil_def)

section \<open>Negation as failure\<close>

lemma TopDown_negated:
  assumes "Current ctx = Some cur" and "Negated cur"
  shows "TopDown (Suc n) st ctx = evalContextNegated (exec n st) ctx"
proof -
  from assms(1) have "\<not> int (length (Query ctx)) \<le> Index ctx"
    by (auto simp: Current_def split: if_splits)
  with assms show ?thesis by (simp add: TopDown_def evalContext_def)
qed

text \<open>
  Claim C4, as amended. Let the current expression of the context be negated; its
  complement is not negated, and the context \<open>negation\<close> holds the complement alone, at
  index 0, with the bindings of the context. When the evaluation of \<open>negation\<close> returns nil:
  if it called its iterator not once, the negated expression goes on with the next
  expression under the same bindings; if it called it, the negated expression returns nil
  and emits nothing. When the evaluation of \<open>negation\<close> returns an error, the negated
  expression returns that error and emits nothing.
\<close>

theorem negation_as_failure:
  assumes "Current ctx = Some cur" and "Negated cur"
  shows "(snd (collect (TopDown n st (ctx\<lparr>Query := [Complement cur], Index := 0\<rparr>))) = Return None
           \<and> fst (collect (TopDown n st (ctx\<lparr>Query := [Complement cur], Index := 0\<rparr>))) = []
          \<longrightarrow> TopDown (Suc n) st ctx = TopDown n st (Step ctx))
       \<and> (snd (collect (TopDown n st (ctx\<lparr>Query := [Complement cur], Index := 0\<rparr>))) = Return None
           \<and> fst (collect (TopDown n st (ctx\<lparr>Query := [Complement cur], Index := 0\<rparr>))) \<noteq> []
          \<longrightarrow> TopDown (Suc n) st ctx = ret_nil)
       \<and> (snd (collect (TopDown n st (ctx\<lparr>Query := [Complement cur], Index := 0\<rparr>))) = Return (Some err)
          \<longrightarrow> TopDown (Suc n) st ctx = ret_err err)
       \<and> \<not> Negated (Complement cur)
       \<and> Bindings (ctx\<lparr>Query := [Complement cur], Index := 0\<rparr>) = Bindings ctx
       \<and> Bindings (Step ctx) = Bindings ctx"
  using assms TopDown_negated[OF assms, of n st]
  by (simp add: evalContextNegated_def Let_def TopDown_def Complement_def Step_def)

text \<open>Instances: \<open>not false\<close> succeeds, \<open>not true\<close> fails, \<open>not 5\<close> is an error.\<close>

lemma notFalse_cur: "Current notFalse = Some \<lparr>Negated = True, Terms = Term (Boolean False)\<rparr>"
  by (simp add: notFalse_def Current_def)

lemma notTrue_cur: "Current notTrue = Some \<lparr>Negated = True, Terms = Term (Boolean True)\<rparr>"
  by (simp add: notTrue_def Current_def)

lemma notFive_cur: "Current notFive = Some \<lparr>Negated = True, Terms = Term (Number 5)\<rparr>"
  by (simp add: notFive_def Current_def)

lemma notFalse_complement:
  "collect (TopDown 4 store0 (notFalse\<lparr>Query := [Complement \<lparr>Negated = True, Terms = Term (Boolean False)\<rparr>], Index := 0\<rparr>))
     = ([], Return None)"
  by code_simp

lemma notTrue_complement:
  "collect (TopDown 4 store0 (notTrue\<lparr>Query := [Complement \<lparr>Negated = True, Terms = Term (Boolean True)\<rparr>], Index := 0\<rparr>))
     = ([notTrue\<lparr>Query := [\<lparr>Negated = False, Terms = Term (Boolean True)\<rparr>], Index := 1\<rparr>], Return None)"
  by code_simp

lemma notFive_complement:
  "collect (TopDown 4 store0 (notFive\<lparr>Query := [Complement \<lparr>Negated = True, Terms = Term (Number 5)\<rparr>], Index := 0\<rparr>))
     = ([], Return (Some (ImplicitCast (Number 5))))"
  by code_simp

theorem negation_as_failure_witness:
  "TopDown 5 store0 notFalse = TopDown 4 store0 (Step notFalse)
   \<and> TopDown 4 store0 (Step notFalse) = yield (Step notFalse)
   \<and> TopDown 5 store0 notTrue = ret_nil
   \<and> TopDown 5 store0 notFive = ret_err (ImplicitCast (Number 5))"
proof -
  have n: "Negated \<lparr>Negated = True, Terms = Term (Boolean False)\<rparr>"
          "Negated \<lparr>Negated = True, Terms = Term (Boolean True)\<rparr>"
          "Negated \<lparr>Negated = True, Terms = Term (Number 5)\<rparr>" by simp_all
  have 1: "TopDown 5 store0 notFalse = TopDown 4 store0 (Step notFalse)"
    using negation_as_failure[OF notFalse_cur n(1), of 4 store0] notFalse_complement
    by (simp add: eval_nat_numeral)
  have 2: "TopDown 4 store0 (Step notFalse) = yield (Step notFalse)"
    by (simp add: eval_nat_numeral TopDown_def evalContext_def notFalse_def Step_def Iter_def newHashMap_def)
  have 3: "TopDown 5 store0 notTrue = ret_nil"
    using negation_as_failure[OF notTrue_cur n(2), of 4 store0] notTrue_complement
    by (simp add: eval_nat_numeral)
  have 4: "TopDown 5 store0 notFive = ret_err (ImplicitCast (Number 5))"
    using negation_as_failure[OF notFive_cur n(3), of 4 store0 "ImplicitCast (Number 5)"] notFive_complement
    by (simp add: eval_nat_numeral)
  from 1 2 3 4 show ?thesis by simp
qed

text \<open>
  The claim without the proviso fails. The complement of \<open>not 5\<close> emits no result, yet the
  negated expression does not go on (that would be a call of the iterator): it returns the
  error of the complement. And the complement of \<open>not [a[i][j]] = [1]\<close> over \<open>a = [[1], 2]\<close>
  emits a result (for \<open>i = 0, j = 0\<close>) before the walk into \<open>a[1]\<close> fails, and the negated
  expression returns that error.
\<close>

lemma not_five_does_not_advance:
  "fst (collect (TopDown 4 store0 (notFive\<lparr>Query := [Complement \<lparr>Negated = True, Terms = Term (Number 5)\<rparr>], Index := 0\<rparr>))) = []
   \<and> TopDown 5 store0 notFive = ret_err (ImplicitCast (Number 5))
   \<and> TopDown 4 store0 (Step notFive) = yield (Step notFive)
   \<and> ret_err (ImplicitCast (Number 5)) \<noteq> yield (Step notFive)"
  by (simp add: eval_nat_numeral notFive_def TopDown_def evalContext_def evalContextNegated_def Current_def Complement_def
      evalTerms_def indexAvailable_def Equal_def equalityBuiltin_def evalTermsRec_def evalExpr_def plugExpr_def withIter_def
      Step_def Iter_def newHashMap_def yield_def ret_err_def ret_nil_def)

lemma negation_emits_then_fails:
  "collect (TopDown 8 storeA (notA\<lparr>Query := [Complement (hd (Query notA))], Index := 0\<rparr>))
     = ([\<lparr>Query = [\<lparr>Negated = False, Terms = TermList [Var ''='', Array [Ref [Var ''a'', Var ''i'', Var ''j'']], Array [Number 1]]\<rparr>],
          Bindings = [(Var ''i'', Number 0), (Var ''j'', Number 0)], Index = 1\<rparr>],
        Return (Some (NonComposite [Var ''j''] [Var ''a'', Number 1])))
   \<and> collect (TopDown 9 storeA notA) = ([], Return (Some (NonComposite [Var ''j''] [Var ''a'', Number 1])))"
  by code_simp

theorem negation_error_counterexample:
  "fst (collect (TopDown 4 store0 (notFive\<lparr>Query := [Complement \<lparr>Negated = True, Terms = Term (Number 5)\<rparr>], Index := 0\<rparr>))) = []
   \<and> TopDown 5 store0 notFive = ret_err (ImplicitCast (Number 5))
   \<and> TopDown 4 store0 (Step notFive) = yield (Step notFive)
   \<and> ret_err (ImplicitCast (Number 5)) \<noteq> yield (Step notFive)
   \<and> fst (collect (TopDown 8 storeA (notA\<lparr>Query := [Complement (hd (Query notA))], Index := 0\<rparr>))) \<noteq> []
   \<and> collect (TopDown 9 storeA notA) = ([], Return (Some (NonComposite [Var ''j''] [Var ''a'', Number 1])))"
  using not_five_does_not_advance negation_emits_then_fails by simp

section \<open>Storage errors in the evaluation of a reference\<close>



section \<open>Unification of two objects\<close>

lemma variableKey_Some:
  "variableKey a b = Some k \<Longrightarrow> \<not> IsGround k \<and> k \<in> fst ` (set a \<union> set b)"
  by (induction a b rule: variableKey.induct) (auto split: if_splits)

lemma variableKey_None:
  "length a = length b \<Longrightarrow> variableKey a b = None \<Longrightarrow> \<forall>p \<in> set a \<union> set b. IsGround (fst p)"
  by (induction a b rule: list_induct2) (auto split: if_splits)

text \<open>
  Claim C8. \<open>evalEqUnifyObjects\<close> (which \<open>evalEqUnifyObject\<close> calls for two objects) compares
  the numbers of pairs first: when they differ it returns nil, whatever the keys. When they
  are equal and some key of either object is not ground, it returns the error \<open>cannot unify
  object with variable key\<close> with such a key, and calls no iterator.
\<close>

theorem unify_objects_keys:
  "(length a \<noteq> length b \<longrightarrow> evalEqUnifyObjects unify ctx a b = ret_nil)
   \<and> (length a = length b \<and> (\<exists>p \<in> set a \<union> set b. \<not> IsGround (fst p)) \<longrightarrow>
        (\<exists>k. evalEqUnifyObjects unify ctx a b = ret_err (ObjectVariableKey k)
             \<and> \<not> IsGround k \<and> k \<in> fst ` (set a \<union> set b)))
   \<and> evalEqUnifyObject unify st ctx a (Object b) = evalEqUnifyObjects unify ctx a b"
proof (intro conjI impI)
  assume "length a \<noteq> length b"
  then show "evalEqUnifyObjects unify ctx a b = ret_nil" by (simp add: evalEqUnifyObjects_def)
next
  assume h: "length a = length b \<and> (\<exists>p \<in> set a \<union> set b. \<not> IsGround (fst p))"
  then have "variableKey a b \<noteq> None" using variableKey_None[of a b] by blast
  then obtain k where k: "variableKey a b = Some k" by auto
  from variableKey_Some[OF k] k h
  show "\<exists>k. evalEqUnifyObjects unify ctx a b = ret_err (ObjectVariableKey k)
             \<and> \<not> IsGround k \<and> k \<in> fst ` (set a \<union> set b)"
    by (auto simp: evalEqUnifyObjects_def)
next
  show "evalEqUnifyObject unify st ctx a (Object b) = evalEqUnifyObjects unify ctx a b"
    by (simp add: evalEqUnifyObject_def)
qed

text \<open>Instances: \<open>{"a": 1} = {k: 1}\<close> is the error on \<open>k\<close>; \<open>{k: 1} = {}\<close> is no result.\<close>

theorem unify_objects_keys_witness:
  "evalEqUnifyObjects (evalEqUnify 3 store0) ctx0 [(String ''a'', Number 1)] [(Var ''k'', Number 1)]
      = ret_err (ObjectVariableKey (Var ''k''))
   \<and> evalEqUnifyObjects (evalEqUnify 3 store0) ctx0 [(Var ''k'', Number 1)] [] = ret_nil
   \<and> evalEqUnify 3 store0 ctx0 (Object [(String ''a'', Number 1)]) (Object [(Var ''k'', Number 1)])
      = ret_err (ObjectVariableKey (Var ''k''))"
proof -
  have 1: "length [(String ''a'', Number 1)] = length [(Var ''k'', Number (1::int))]
        \<and> (\<exists>p \<in> set [(String ''a'', Number 1)] \<union> set [(Var ''k'', Number 1)]. \<not> IsGround (fst p))" by simp
  have 2: "length [(Var ''k'', Number (1::int))] \<noteq> length ([]::(val \<times> val) list)" by simp
  from unify_objects_keys[of "[(String ''a'', Number 1)]" "[(Var ''k'', Number 1)]" "evalEqUnify 3 store0" ctx0 store0] 1
  obtain k where k: "evalEqUnifyObjects (evalEqUnify 3 store0) ctx0 [(String ''a'', Number 1)] [(Var ''k'', Number 1)]
      = ret_err (ObjectVariableKey k)" "\<not> IsGround k" "k \<in> fst ` (set [(String ''a'', Number 1)] \<union> set [(Var ''k'', Number 1)])"
    by blast
  from k(2,3) have "k = Var ''k''" by auto
  with k(1) have a: "evalEqUnifyObjects (evalEqUnify 3 store0) ctx0 [(String ''a'', Number 1)] [(Var ''k'', Number 1)]
      = ret_err (ObjectVariableKey (Var ''k''))" by simp
  have b: "evalEqUnifyObjects (evalEqUnify 3 store0) ctx0 [(Var ''k'', Number 1)] [] = ret_nil"
    using unify_objects_keys[of "[(Var ''k'', Number 1)]" "[]" "evalEqUnify 3 store0" ctx0 store0] 2 by blast
  have c: "evalEqUnify 3 store0 ctx0 (Object [(String ''a'', Number 1)]) (Object [(Var ''k'', Number 1)])
      = ret_err (ObjectVariableKey (Var ''k''))"
    by (simp add: numeral_3_eq_3 evalEqUnifyBody_def evalEqUnifyObject_def evalEqUnifyObjects_def
        ctx0_def newHashMap_def Get_def)
  from a b c show ?thesis by simp
qed

section \<open>Dereference of a partial set\<close>

text \<open>
  Claim C9. When the suffix of the reference beyond the path has more than one term,
  \<open>evalRefRulePartialSetDoc\<close> returns nil without a call of the iterator. When it has one
  term, every context the iterator is called with binds the reference prefix
  \<open>ref[:len(path)+1]\<close> to true; and when the plugged key is a variable, that context also
  binds the variable to the value that a context emitted by the body of the rule (evaluated
  from no bindings) gives to the key of the rule.
\<close>

theorem partial_set_dereference:
  "(length path \<le> length ref \<and> length (drop (length path) ref) > 1 \<longrightarrow>
      evalRefRulePartialSetDoc call ctx ref path r = ret_nil)
   \<and> (length ref = length path + 1
        \<and> emits (evalRefRulePartialSetDoc (exec n st) ctx ref path r) c \<longrightarrow>
      Get (Bindings c) (Ref (take (length path + 1) ref)) = Some (Boolean True)
      \<and> (\<forall>x. plugValue (ref ! length path) (Bindings ctx) = Var x \<longrightarrow>
           (\<exists>child rk v. emits (TopDown n st (Child ctx r newHashMap)) child
               \<and> Key r = Some rk \<and> Get (Bindings child) rk = Some v
               \<and> Get (Bindings c) (Var x) = Some v)))"
proof -
  have A: "evalRefRulePartialSetDoc call ctx ref path r = ret_nil"
    if h: "length path \<le> length ref \<and> length (drop (length path) ref) > 1"
  proof -
  from h obtain s0 s1 rest where "drop (length path) ref = s0 # s1 # rest"
    by (cases "drop (length path) ref"; cases "tl (drop (length path) ref)") auto
  with h show "evalRefRulePartialSetDoc call ctx ref path r = ret_nil"
    by (simp add: evalRefRulePartialSetDoc_def)
  qed
  have B: "Get (Bindings c) (Ref (take (length path + 1) ref)) = Some (Boolean True)
      \<and> (\<forall>x. plugValue (ref ! length path) (Bindings ctx) = Var x \<longrightarrow>
           (\<exists>child rk v. emits (TopDown n st (Child ctx r newHashMap)) child
               \<and> Key r = Some rk \<and> Get (Bindings child) rk = Some v
               \<and> Get (Bindings c) (Var x) = Some v))"
    if h: "length ref = length path + 1 \<and> emits (evalRefRulePartialSetDoc (exec n st) ctx ref path r) c"
  proof -
  from h have len: "length ref = length path + 1" and em: "emits (evalRefRulePartialSetDoc (exec n st) ctx ref path r) c"
    by auto
  from len have dr: "drop (length path) ref = [ref ! length path]"
    by (metis Suc_eq_plus1 append_Nil2 drop_all le_refl lessI Cons_nth_drop_Suc drop_Suc)
  let ?key = "plugValue (ref ! length path) (Bindings ctx)"
  let ?prefix = "take (length path + 1) ref"
  show "Get (Bindings c) (Ref ?prefix) = Some (Boolean True)
      \<and> (\<forall>x. ?key = Var x \<longrightarrow>
           (\<exists>child rk v. emits (TopDown n st (Child ctx r newHashMap)) child
               \<and> Key r = Some rk \<and> Get (Bindings child) rk = Some v
               \<and> Get (Bindings c) (Var x) = Some v))"
  proof (cases "IsGround ?key")
    case True
    then have nv: "\<forall>x. ?key \<noteq> Var x" by auto
    from em len dr True obtain rk where rk: "Key r = Some rk"
      and em2: "emits (withIterVar (exec n st (EvalContext (Child ctx r (Put newHashMap rk ?key)))) ctx
                        (\<lambda>ctx child. (BindRef ctx ?prefix (Boolean True), yield (BindRef ctx ?prefix (Boolean True))))) c"
      by (auto simp: evalRefRulePartialSetDoc_def Let_def split: option.splits)
    from emits_withIterVar[OF em2] obtain v0 where "c = BindRef v0 ?prefix (Boolean True)" by auto
    with nv show ?thesis by simp
  next
    case False
    let ?body = "(\<lambda>ctx child.
                      case Key r of
                        None \<Rightarrow> (ctx, Done Panicked)
                      | Some rk \<Rightarrow>
                          (case Get (Bindings child) rk of
                             None \<Rightarrow> (ctx, ret_err (UnboundVariable (Key r)))
                           | Some v \<Rightarrow>
                               (case ?key of
                                  Var x \<Rightarrow>
                                    (case BindVar ctx x v of
                                       None \<Rightarrow> (ctx, Done Panicked)
                                     | Some ctx' \<Rightarrow>
                                         (BindRef ctx' ?prefix (Boolean True),
                                          yield (BindRef ctx' ?prefix (Boolean True))))
                                | _ \<Rightarrow> (ctx, Done Panicked))))"
    from em len dr False have em2: "emits (withIterVar (exec n st (EvalContext (Child ctx r newHashMap))) ctx ?body) c"
      by (simp add: evalRefRulePartialSetDoc_def Let_def)
    from emits_withIterVar[OF em2] obtain child v0 where ch: "emits (exec n st (EvalContext (Child ctx r newHashMap))) child"
      and b: "emits (snd (?body v0 child)) c" by blast
    from b obtain rk where rk: "Key r = Some rk" by (cases "Key r") auto
    from b rk obtain v where v: "Get (Bindings child) rk = Some v" by (cases "Get (Bindings child) rk") auto
    from b rk v obtain x where x: "?key = Var x" by (cases ?key) auto
    from b rk v x obtain ctx' where bv: "BindVar v0 x v = Some ctx'" and c: "c = BindRef ctx' ?prefix (Boolean True)"
      by (cases "BindVar v0 x v") auto
    have "IsGround v" using allGround_Get[OF emits_exec_ground[OF ch] v] .
    then have "v \<noteq> Var x" by auto
    from BindVar_binds[OF bv this] c have "Get (Bindings c) (Var x) = Some v" by simp
    with c ch rk v x show ?thesis by (auto simp: TopDown_def)
  qed
  qed
  from A B show ?thesis by blast
qed

text \<open>Instances: \<open>p[y]\<close> over the rule \<open>p[x] :- x = 1\<close> binds \<open>y\<close> to 1 and \<open>p[y]\<close> to true;
  \<open>p[y][0]\<close> is undefined.\<close>

lemma pIsOne_deref:
  "fst (collect (evalRefRulePartialSetDoc (exec 5 store0) ctx0 [Var ''p'', Var ''y''] [Var ''p''] pIsOne))
     = [ctx0\<lparr>Bindings := [(Var ''y'', Number 1), (Ref [Var ''p'', Var ''y''], Boolean True)]\<rparr>]"
  by code_simp

theorem partial_set_dereference_witness:
  "emits (evalRefRulePartialSetDoc (exec 5 store0) ctx0 [Var ''p'', Var ''y''] [Var ''p''] pIsOne)
      (ctx0\<lparr>Bindings := [(Var ''y'', Number 1), (Ref [Var ''p'', Var ''y''], Boolean True)]\<rparr>)
   \<and> Get [(Var ''y'', Number 1), (Ref [Var ''p'', Var ''y''], Boolean True)] (Ref [Var ''p'', Var ''y''])
       = Some (Boolean True)
   \<and> Get [(Var ''y'', Number 1), (Ref [Var ''p'', Var ''y''], Boolean True)] (Var ''y'') = Some (Number 1)
   \<and> evalRefRulePartialSetDoc (exec 5 store0) ctx0 [Var ''p'', Var ''y'', Number 0] [Var ''p''] pIsOne = ret_nil"
proof -
  let ?c = "ctx0\<lparr>Bindings := [(Var ''y'', Number 1), (Ref [Var ''p'', Var ''y''], Boolean True)]\<rparr>"
  have e: "emits (evalRefRulePartialSetDoc (exec 5 store0) ctx0 [Var ''p'', Var ''y''] [Var ''p''] pIsOne) ?c"
    by (rule collect_emits) (simp add: pIsOne_deref)
  have l: "length [Var ''p'', Var ''y''] = length [Var ''p''] + 1" by simp
  from partial_set_dereference[of "[Var ''p'']" "[Var ''p'', Var ''y'']" "exec 5 store0" ctx0 pIsOne 5 store0 ?c] e l
  have g: "Get (Bindings ?c) (Ref (take (length [Var ''p''] + 1) [Var ''p'', Var ''y''])) = Some (Boolean True)"
    by blast
  have v: "Get [(Var ''y'', Number 1), (Ref [Var ''p'', Var ''y''], Boolean True)] (Var ''y'') = Some (Number 1)"
    by (simp add: Get_def)
  have n: "evalRefRulePartialSetDoc (exec 5 store0) ctx0 [Var ''p'', Var ''y'', Number 0] [Var ''p''] pIsOne = ret_nil"
    using partial_set_dereference[of "[Var ''p'']" "[Var ''p'', Var ''y'', Number 0]" "exec 5 store0" ctx0 pIsOne 5 store0 ?c]
    by simp
  from e g v n show ?thesis by simp
qed

section \<open>The query of a partial set\<close>

lemma calls_partialSet_state:
  "calls r (partialSetIter st key) s = calls r (partialSetIter st key) []"
proof (induction r arbitrary: s)
  case (Done out) show ?case by simp
next
  case (Emit c k)
  have f: "fst (partialSetIter st key c s) = fst (partialSetIter st key c [])"
    by (simp add: partialSetIter_def split: result.splits)
  show ?case
    by (simp add: f split: result.splits) (metis Emit.IH rangeI)
qed

lemma runIter_partialSet:
  "snd (runIter r (partialSetIter st key) s) = s @ acceptedKeys st key (calls r (partialSetIter st key) [])"
proof (induction r arbitrary: s)
  case (Done out) show ?case by (simp add: acceptedKeys_def)
next
  case (Emit c k)
  show ?case
  proof (cases "dereferenceVar st key c")
    case (Ok v)
    then have i: "partialSetIter st key c s = (Ok (), s @ [v])" "partialSetIter st key c [] = (Ok (), [v])"
      by (simp_all add: partialSetIter_def)
    have "snd (runIter (k None) (partialSetIter st key) (s @ [v])) =
           (s @ [v]) @ acceptedKeys st key (calls (k None) (partialSetIter st key) [])"
      using Emit.IH by blast
    moreover have "calls (k None) (partialSetIter st key) [v] = calls (k None) (partialSetIter st key) []"
      by (rule calls_partialSet_state)
    ultimately show ?thesis using Ok i by (simp add: acceptedKeys_def)
  next
    case (Error e)
    then have i: "partialSetIter st key c s = (Error e, s)" "partialSetIter st key c [] = (Error e, [])"
      by (simp_all add: partialSetIter_def)
    have "snd (runIter (k (Some e)) (partialSetIter st key) s) =
           s @ acceptedKeys st key (calls (k (Some e)) (partialSetIter st key) [])"
      using Emit.IH by blast
    then show ?thesis using Error i by (simp add: acceptedKeys_def)
  next
    case Panic
    then have i: "partialSetIter st key c s = (Panic, s)" "partialSetIter st key c [] = (Panic, [])"
      by (simp_all add: partialSetIter_def)
    then show ?thesis using Panic by (simp add: acceptedKeys_def)
  qed
qed

lemma forRules_Return:
  "forRules rs f s = (Return None, s') \<Longrightarrow> s' = fold (\<lambda>r s. snd (f r s)) rs s"
proof (induction rs arbitrary: s)
  case Nil then show ?case by simp
next
  case (Cons r rs)
  then show ?case by (cases "fst (f r s)") (auto split: option.splits)
qed

lemma forRules_Return_fst:
  "forRules rs f s = (Return None, s') \<Longrightarrow> r \<in> set rs \<Longrightarrow> \<exists>t. fst (f r t) = Return None"
proof (induction rs arbitrary: s)
  case Nil then show ?case by simp
next
  case (Cons r' rs)
  then show ?case by (cases "fst (f r' s)") (auto split: option.splits)
qed

lemma answer_Ok: "answer out d = Some (Ok x) \<Longrightarrow> out = Return None \<and> d = Ok x"
  by (auto simp: answer_def split: outcome.splits option.splits)

text \<open>
  Claim C5, as amended. The list that \<open>topDownQueryPartialSetDoc\<close> returns holds the
  dereferenced key of every grounding its closure accepts, rule after rule and, within a
  rule, in the order of the groundings: each is appended, and a key that several rules or
  several groundings produce is in the list as many times.
\<close>

theorem partial_set_lists_every_grounding:
  assumes "topDownQueryPartialSetDoc n st rules = Some (Ok (Document d))"
  shows "d = NSlice (concat (map (\<lambda>r. acceptedKeys st (the (Key r))
              (calls (TopDown n st (ruleContext r)) (partialSetIter st (the (Key r))) [])) rules))"
proof -
  let ?f = "(\<lambda>r result.
                case Key r of
                  Some (Var key) \<Rightarrow>
                    runIter (TopDown n st \<lparr>Query = Body r, Bindings = newHashMap, Index = 0\<rparr>)
                      (partialSetIter st (Var key)) result
                | _ \<Rightarrow> (Panicked, result))"
  obtain out result where fr: "forRules rules ?f [] = (out, result)" by (cases "forRules rules ?f []")
  with assms have "answer out (Ok (Document (NSlice result))) = Some (Ok (Document d))"
    by (simp add: topDownQueryPartialSetDoc_def)
  from answer_Ok[OF this] have out: "out = Return None" and d: "d = NSlice result" by auto
  have step: "\<And>r s. r \<in> set rules \<Longrightarrow> snd (?f r s) = s @ acceptedKeys st (the (Key r))
              (calls (TopDown n st (ruleContext r)) (partialSetIter st (the (Key r))) [])"
  proof -
    fix r s assume "r \<in> set rules"
    from forRules_Return_fst[OF fr[unfolded out] this] obtain t where t: "fst (?f r t) = Return None" ..
    then obtain key where k: "Key r = Some (Var key)"
      by (cases "Key r"; cases "the (Key r)") auto
    show "snd (?f r s) = s @ acceptedKeys st (the (Key r))
              (calls (TopDown n st (ruleContext r)) (partialSetIter st (the (Key r))) [])"
      using k by (simp add: runIter_partialSet ruleContext_def)
  qed
  have "\<And>s. set rs \<subseteq> set rules \<Longrightarrow> fold (\<lambda>r s. snd (?f r s)) rs s = s @ concat (map (\<lambda>r. acceptedKeys st (the (Key r))
              (calls (TopDown n st (ruleContext r)) (partialSetIter st (the (Key r))) [])) rs)" for rs
  proof (induction rs)
    case Nil show ?case by simp
  next
    case (Cons r rs)
    then show ?case using step[of r] by simp
  qed
  from this[of rules "[]"] forRules_Return[OF fr[unfolded out]] d show ?thesis by simp
qed

text \<open>An instance, which is also where the claim as stated fails: the rule \<open>p[x] :- x = 1\<close>
  twice gives the list \<open>[1, 1]\<close>.\<close>

lemma pIsOne_query:
  "topDownQueryPartialSetDoc 5 store0 [pIsOne, pIsOne] = Some (Ok (Document (NSlice [NNumber 1, NNumber 1])))"
  by code_simp

theorem partial_set_lists_every_grounding_witness:
  "NSlice [NNumber 1, NNumber 1] =
     NSlice (concat (map (\<lambda>r. acceptedKeys store0 (the (Key r))
              (calls (TopDown 5 store0 (ruleContext r)) (partialSetIter store0 (the (Key r))) [])) [pIsOne, pIsOne]))
   \<and> acceptedKeys store0 (the (Key pIsOne))
        (calls (TopDown 5 store0 (ruleContext pIsOne)) (partialSetIter store0 (the (Key pIsOne))) []) = [NNumber 1]"
proof -
  have "acceptedKeys store0 (the (Key pIsOne))
        (calls (TopDown 5 store0 (ruleContext pIsOne)) (partialSetIter store0 (the (Key pIsOne))) []) = [NNumber 1]"
    by code_simp
  with partial_set_lists_every_grounding[OF pIsOne_query] show ?thesis by simp
qed

theorem partial_set_keeps_duplicates:
  "topDownQueryPartialSetDoc 5 store0 [pIsOne, pIsOne] = Some (Ok (Document (NSlice [NNumber 1, NNumber 1])))
   \<and> \<not> distinct [NNumber 1, NNumber 1]"
  by code_simp

section \<open>The query of a partial object\<close>

lemma partialObjectIter_state:
  "fst (partialObjectIter st key v c s) = fst (partialObjectIter st key v c [])"
  by (simp add: partialObjectIter_def split: result.splits native.splits)

lemma calls_partialObject_state:
  "calls r (partialObjectIter st key v) s = calls r (partialObjectIter st key v) []"
proof (induction r arbitrary: s)
  case (Done out) show ?case by simp
next
  case (Emit c k)
  show ?case
    by (simp add: partialObjectIter_state[of st key v c s] split: result.splits) (metis Emit.IH rangeI)
qed

lemma fold_acceptedPairs_Cons:
  "fold (\<lambda>kv m. AList.update (fst kv) (snd kv) m) (acceptedPairs st key v (c # cs)) s
     = fold (\<lambda>kv m. AList.update (fst kv) (snd kv) m) (acceptedPairs st key v cs)
         (snd (partialObjectIter st key v c s))"
  by (simp add: partialObjectIter_def acceptedPairs_def split: result.splits native.splits)

lemma acceptedPairs_Nil [simp]: "acceptedPairs st key v [] = []"
  by (simp add: acceptedPairs_def)

lemma runIter_partialObject:
  "snd (runIter r (partialObjectIter st key v) s) =
     fold (\<lambda>kv m. AList.update (fst kv) (snd kv) m)
       (acceptedPairs st key v (calls r (partialObjectIter st key v) [])) s"
proof (induction r arbitrary: s)
  case (Done out) show ?case by simp
next
  case (Emit c k)
  let ?it = "partialObjectIter st key v"
  let ?upd = "(\<lambda>kv m. AList.update (fst kv) (snd kv) m)"
  have f0: "fst (?it c []) = fst (?it c s)" by (rule partialObjectIter_state[symmetric])
  show ?case
  proof (cases "fst (?it c s)")
    case (Ok u)
    have "snd (runIter (k None) ?it (snd (?it c s))) =
           fold ?upd (acceptedPairs st key v (calls (k None) ?it [])) (snd (?it c s))"
      using Emit.IH by blast
    moreover have "calls (k None) ?it (snd (?it c [])) = calls (k None) ?it []"
      by (rule calls_partialObject_state)
    ultimately show ?thesis using Ok f0
      by (simp add: fold_acceptedPairs_Cons)
  next
    case (Error e)
    have "snd (runIter (k (Some e)) ?it (snd (?it c s))) =
           fold ?upd (acceptedPairs st key v (calls (k (Some e)) ?it [])) (snd (?it c s))"
      using Emit.IH by blast
    moreover have "calls (k (Some e)) ?it (snd (?it c [])) = calls (k (Some e)) ?it []"
      by (rule calls_partialObject_state)
    ultimately show ?thesis using Error f0
      by (simp add: fold_acceptedPairs_Cons)
  next
    case Panic
    then show ?thesis using f0
      by (simp add: fold_acceptedPairs_Cons)
  qed
qed

lemma map_of_fold_update:
  "map_of (fold (\<lambda>kv m. AList.update (fst kv) (snd kv) m) ps m) = map_of m ++ map_of (rev ps)"
proof (induction ps arbitrary: m)
  case Nil show ?case by simp
next
  case (Cons p ps)
  show ?case by (simp add: Cons.IH update_conv map_add_upd_left fun_upd_def map_add_def fun_eq_iff split: option.splits)
qed

lemma map_of_rev_last:
  "k \<notin> fst ` set qs \<Longrightarrow> map_of (rev (ps @ (k, v) # qs)) k = Some v"
  by (simp add: map_add_Some_iff map_of_eq_None_iff)

text \<open>
  Claim C10. The map that \<open>topDownQueryPartialObjectDoc\<close> returns is built from the pairs of
  a string key and a value that its closure accepts, rule after rule in list order and
  grounding after grounding, each stored under its key over what was there: for a key
  produced more than once the value of the last grounding is the one returned, and the
  query succeeds all the same.
\<close>

theorem partial_object_last_write_wins:
  assumes "topDownQueryPartialObjectDoc n st rules = Some (Ok (Document d))"
  shows "\<exists>m. d = NMap m
     \<and> map_of m = map_of (rev (concat (map (\<lambda>r. acceptedPairs st (the (Key r)) (the (Value r))
           (calls (TopDown n st (ruleContext r)) (partialObjectIter st (the (Key r)) (the (Value r))) [])) rules)))
     \<and> (\<forall>ps k v qs.
           concat (map (\<lambda>r. acceptedPairs st (the (Key r)) (the (Value r))
             (calls (TopDown n st (ruleContext r)) (partialObjectIter st (the (Key r)) (the (Value r))) [])) rules)
             = ps @ (k, v) # qs \<and> k \<notin> fst ` set qs
           \<longrightarrow> map_of m k = Some v)"
proof -
  let ?f = "(\<lambda>r result.
                case Key r of
                  Some (Var key) \<Rightarrow>
                    (case Value r of
                       Some (Var v) \<Rightarrow>
                         runIter (TopDown n st \<lparr>Query = Body r, Bindings = newHashMap, Index = 0\<rparr>)
                           (partialObjectIter st (Var key) (Var v)) result
                     | _ \<Rightarrow> (Panicked, result))
                | _ \<Rightarrow> (Panicked, result))"
  let ?pairs = "\<lambda>r. acceptedPairs st (the (Key r)) (the (Value r))
           (calls (TopDown n st (ruleContext r)) (partialObjectIter st (the (Key r)) (the (Value r))) [])"
  let ?upd = "(\<lambda>kv m. AList.update (fst kv) (snd kv) m)"
  obtain out result where fr: "forRules rules ?f [] = (out, result)" by (cases "forRules rules ?f []")
  with assms have "answer out (Ok (Document (NMap result))) = Some (Ok (Document d))"
    by (simp add: topDownQueryPartialObjectDoc_def)
  from answer_Ok[OF this] have out: "out = Return None" and d: "d = NMap result" by auto
  have step: "\<And>r s. r \<in> set rules \<Longrightarrow> snd (?f r s) = fold ?upd (?pairs r) s"
  proof -
    fix r s assume "r \<in> set rules"
    from forRules_Return_fst[OF fr[unfolded out] this] obtain t where t: "fst (?f r t) = Return None" ..
    then obtain key where k: "Key r = Some (Var key)"
      by (cases "Key r"; cases "the (Key r)") auto
    from t k obtain v where v: "Value r = Some (Var v)"
      by (cases "Value r"; cases "the (Value r)") auto
    show "snd (?f r s) = fold ?upd (?pairs r) s"
      using k v by (simp add: runIter_partialObject ruleContext_def)
  qed
  have "\<And>s. set rs \<subseteq> set rules \<Longrightarrow> fold (\<lambda>r s. snd (?f r s)) rs s = fold ?upd (concat (map ?pairs rs)) s" for rs
  proof (induction rs)
    case Nil show ?case by simp
  next
    case (Cons r rs)
    then show ?case using step[of r] by simp
  qed
  from this[of rules "[]"] forRules_Return[OF fr[unfolded out]]
  have res: "result = fold ?upd (concat (map ?pairs rules)) []" by simp
  have m: "map_of result = map_of (rev (concat (map ?pairs rules)))"
    by (simp add: res map_of_fold_update)
  have "\<forall>ps k v qs. concat (map ?pairs rules) = ps @ (k, v) # qs \<and> k \<notin> fst ` set qs
           \<longrightarrow> map_of result k = Some v"
    using m map_of_rev_last by metis
  with d m show ?thesis by blast
qed

text \<open>An instance: the rules \<open>p[k] = v :- k = "a", v = 1\<close> and \<open>p[k] = v :- k = "a", v = 2\<close>
  give the map \<open>{"a": 2}\<close>.\<close>

lemma aIsOneTwo_query:
  "topDownQueryPartialObjectDoc 6 store0 [aIsOne, aIsTwo] = Some (Ok (Document (NMap [(''a'', NNumber 2)])))"
  by code_simp

lemma aIsOneTwo_pairs:
  "concat (map (\<lambda>r. acceptedPairs store0 (the (Key r)) (the (Value r))
             (calls (TopDown 6 store0 (ruleContext r)) (partialObjectIter store0 (the (Key r)) (the (Value r))) []))
      [aIsOne, aIsTwo]) = [(''a'', NNumber 1)] @ (''a'', NNumber 2) # []"
  by code_simp

theorem partial_object_last_write_wins_witness:
  "topDownQueryPartialObjectDoc 6 store0 [aIsOne, aIsTwo] = Some (Ok (Document (NMap [(''a'', NNumber 2)])))
   \<and> concat (map (\<lambda>r. acceptedPairs store0 (the (Key r)) (the (Value r))
             (calls (TopDown 6 store0 (ruleContext r)) (partialObjectIter store0 (the (Key r)) (the (Value r))) []))
      [aIsOne, aIsTwo]) = [(''a'', NNumber 1), (''a'', NNumber 2)]
   \<and> map_of [(''a'', NNumber 2)] ''a'' = Some (NNumber 2)"
proof -
  from partial_object_last_write_wins[OF aIsOneTwo_query]
  obtain m where m: "NMap [(''a'', NNumber 2)] = NMap m"
    and w: "\<forall>ps k v qs.
           concat (map (\<lambda>r. acceptedPairs store0 (the (Key r)) (the (Value r))
             (calls (TopDown 6 store0 (ruleContext r)) (partialObjectIter store0 (the (Key r)) (the (Value r))) [])) [aIsOne, aIsTwo])
             = ps @ (k, v) # qs \<and> k \<notin> fst ` set qs
           \<longrightarrow> map_of m k = Some v" by blast
  have "''a'' \<notin> fst ` set ([] :: (string \<times> native) list)" by simp
  with w aIsOneTwo_pairs have "map_of m ''a'' = Some (NNumber 2)" by blast
  with m aIsOneTwo_query aIsOneTwo_pairs show ?thesis by simp
qed

section \<open>The query of a complete document\<close>

lemma noConflictStep_simps [simp]:
  "noConflictStep (Continue x)" "noConflictStep (Stop out) = noConflict (Done out)"
  by (simp_all add: noConflictStep_def split: outcome.splits)

lemma notConflict_None [simp]: "notConflict None" by (simp add: notConflict_def)

lemma notConflict_simps [simp]:
  "notConflict (Some (FromStore se))" "notConflict (Some (UnboundVariable vo))"
  "notConflict (Some (ConvertNonStringKey nv))" "notConflict (Some (ObjectVariableKey v))"
  "notConflict (Some (ObjectNonStringKey v))" "notConflict (Some (ImplicitCast v))"
  "notConflict (Some (NonComposite r1 r2))" "notConflict (Some (NotImplemented r1 r2 ru))"
  "notConflict (Some (CannotDereference ru))" "notConflict (Some (IndexBuildFailed se r1))"
  "notConflict (Some (MissingIndex r1))" "notConflict (Some (ProduceNonStringKey nv))"
  "notConflict (Some (InvalidDocument r1))" "\<not> notConflict (Some (MultipleConflictingRules nm))"
  by (simp_all add: notConflict_def)

lemma noConflict_yield [simp, intro!]: "noConflict (yield c)" by (simp add: yield_def)

lemma noConflict_ret_nil [simp, intro!]: "noConflict ret_nil" by (simp add: ret_nil_def)

lemma noConflict_ret_err [simp]: "noConflict (ret_err e) = notConflict (Some e)" by (simp add: ret_err_def)

lemma noConflict_Panicked [simp, intro!]: "noConflict (Done Panicked)" by simp

lemma noConflict_OutOfFuel [simp, intro!]: "noConflict (Done OutOfFuel)" by simp

lemma noConflict_andThen [intro!]:
  "noConflict r \<Longrightarrow> (\<And>e. notConflict e \<Longrightarrow> noConflict (f e)) \<Longrightarrow> noConflict (andThen r f)"
  by (induction r) (auto split: outcome.splits)

lemma noConflict_withIter [intro!]:
  "noConflict r \<Longrightarrow> (\<And>c. noConflict (body c)) \<Longrightarrow> noConflict (withIter r body)"
  by (induction r) (auto intro!: noConflict_andThen)

lemma noConflict_withIterVar [intro!]:
  "noConflict r \<Longrightarrow> (\<And>v c. noConflict (snd (body v c))) \<Longrightarrow> noConflict (withIterVar r v body)"
  by (induction r arbitrary: v) (auto intro!: noConflict_andThen)

lemma noConflict_forEach [intro!]:
  "(\<And>x. noConflict (f x)) \<Longrightarrow> noConflict (forEach xs f)"
  by (induction xs) (auto intro!: noConflict_andThen split: option.splits)

lemma noConflict_collect:
  "noConflict r \<Longrightarrow> noConflict (Done (snd (collect r)))"
  by (induction r) auto

lemma noConflictStep_unifyStep [intro!]: "noConflict r \<Longrightarrow> noConflictStep (unifyStep r)"
  using noConflict_collect[of r]
  by (auto simp: unifyStep_def noConflictStep_def split: outcome.splits option.splits list.splits)

lemma noConflictStep_forCtx [intro!]:
  "(\<And>x c. noConflictStep (body x c)) \<Longrightarrow> noConflictStep (forCtx xs body ctx)"
proof (induction xs arbitrary: ctx)
  case Nil show ?case by (simp add: noConflictStep_def)
next
  case (Cons x xs)
  from Cons.prems[of x ctx] Cons.IH[OF Cons.prems] show ?case
    by (cases "body x ctx") (auto simp: noConflictStep_def)
qed

lemma noConflict_endLoop [intro!]: "noConflictStep s \<Longrightarrow> noConflict (endLoop s)"
  by (auto simp: endLoop_def noConflictStep_def split: step.splits outcome.splits)

lemma noConflictStep_matchKey [intro!]:
  "(\<And>v. noConflict (f v)) \<Longrightarrow> noConflictStep (matchKey bs k f tmp)"
proof (induction bs arbitrary: tmp)
  case Nil show ?case by (simp add: noConflictStep_def)
next
  case (Cons b bs)
  from noConflict_collect[OF Cons.prems[of "snd b"]] Cons.IH[OF Cons.prems]
  show ?case
    by (auto simp: noConflictStep_def split: outcome.splits option.splits list.splits)
qed

lemma ValueToInterface_notConflict:
  "ValueToInterface st v = Error e \<Longrightarrow> notConflict (Some e)"
proof (induction v arbitrary: e)
  case (Array xs)
  have "\<And>acc. (\<forall>e. acc = Error e \<longrightarrow> notConflict (Some e)) \<Longrightarrow> set ys \<subseteq> set xs \<Longrightarrow>
       fold (\<lambda>x acc. appendSlice acc (ValueToInterface st x)) ys acc = Error e \<Longrightarrow> notConflict (Some e)" for ys
  proof (induction ys)
    case Nil then show ?case by simp
  next
    case (Cons y ys)
    have "\<forall>e. appendSlice acc (ValueToInterface st y) = Error e \<longrightarrow> notConflict (Some e)"
      using Cons.prems(1,2) Array.IH[of y]
      by (auto simp: appendSlice_def split: result.splits native.splits)
    from Cons.IH[OF this] Cons.prems show ?case by simp
  qed
  from this[of "Ok (NSlice [])" xs] Array.prems show ?case by simp
next
  case (Object ps)
  have "\<And>acc. (\<forall>e. acc = Error e \<longrightarrow> notConflict (Some e)) \<Longrightarrow> set ys \<subseteq> set ps \<Longrightarrow>
       fold (\<lambda>x acc. putMap acc (ValueToInterface st (fst x)) (ValueToInterface st (snd x))) ys acc = Error e
        \<Longrightarrow> notConflict (Some e)" for ys
  proof (induction ys)
    case Nil then show ?case by simp
  next
    case (Cons y ys)
    obtain a b where y: "y = (a, b)" by (cases y)
    have "\<forall>e. putMap acc (ValueToInterface st (fst y)) (ValueToInterface st (snd y)) = Error e \<longrightarrow> notConflict (Some e)"
      using Cons.prems(1,2) Object.IH[of y a] Object.IH[of y b] y
      by (auto simp: putMap_def split: result.splits native.splits)
    from Cons.IH[OF this] Cons.prems show ?case by simp
  qed
  from this[of "Ok (NMap [])" ps] Object.prems show ?case by simp
next
  case (Ref r)
  then show ?case by (auto split: sum.splits)
qed simp_all

lemma noConflict_evalEqGround [intro!]: "noConflict (evalEqGround st ctx a b)"
  using ValueToInterface_notConflict
  by (auto simp: evalEqGround_def split: result.splits)

lemma noConflict_evalEqUnifyVar [intro!]: "noConflict (evalEqUnifyVar ctx a b)"
  by (auto simp: evalEqUnifyVar_def split: option.splits)

lemma noConflict_evalEqUnifyBody:
  assumes u: "\<And>c a b. noConflict (unify c a b)"
  shows "noConflict (evalEqUnifyBody unify st ctx a b)"
proof -
  have ar: "\<And>c xs r. noConflict (evalEqUnifyArrayRef unify st c xs r)"
    using u by (auto simp: evalEqUnifyArrayRef_def split: sum.splits native.splits)
  have as: "\<And>c xs ys. noConflict (evalEqUnifyArrays unify c xs ys)"
    using u by (auto simp: evalEqUnifyArrays_def)
  have a: "\<And>c xs v. noConflict (evalEqUnifyArray unify st c xs v)"
    using ar as by (auto simp: evalEqUnifyArray_def split: val.splits)
  have "\<And>(obj :: (string \<times> native) list) r c ai. noConflictStep (case fst ai of
                                String k \<Rightarrow>
                                  (case map_of obj k of
                                     None \<Rightarrow> Stop (Return None)
                                   | Some v \<Rightarrow>
                                       unifyStep (unify c (snd ai) (Ref (r @ [fst ai]))))
                              | _ \<Rightarrow> Stop (Return (Some (ObjectNonStringKey (fst ai)))))"
    using u by (auto split: val.splits option.splits)
  then have or: "\<And>c ps r. noConflict (evalEqUnifyObjectRef unify st c ps r)"
    by (auto simp: evalEqUnifyObjectRef_def split: sum.splits native.splits option.splits)
  have "\<And>c ai qs. noConflictStep (case matchKey qs (fst ai) (\<lambda>bv. unify c (snd ai) bv) None of
                    Stop out \<Rightarrow> Stop out
                  | Continue None \<Rightarrow> Stop (Return None)
                  | Continue (Some tmp) \<Rightarrow> Continue tmp)"
  proof -
    fix c ai qs
    have "noConflictStep (matchKey qs (fst ai) (\<lambda>bv. unify c (snd ai) bv) None)" using u by auto
    then show "noConflictStep (case matchKey qs (fst ai) (\<lambda>bv. unify c (snd ai) bv) None of
                    Stop out \<Rightarrow> Stop out
                  | Continue None \<Rightarrow> Stop (Return None)
                  | Continue (Some tmp) \<Rightarrow> Continue tmp)"
      by (auto split: step.splits option.splits)
  qed
  then have os: "\<And>c ps qs. noConflict (evalEqUnifyObjects unify c ps qs)"
    by (auto simp: evalEqUnifyObjects_def split: option.splits)
  have ob: "\<And>c ps v. noConflict (evalEqUnifyObject unify st c ps v)"
    using or os by (auto simp: evalEqUnifyObject_def split: val.splits)
  show ?thesis using a ob by (auto simp: evalEqUnifyBody_def split: val.splits)
qed

lemma noConflict_evalEqUnify: "noConflict (evalEqUnify n st ctx a b)"
  by (induction n arbitrary: ctx a b) (auto intro: noConflict_evalEqUnifyBody)

lemma noConflict_queryHits [intro!]: "noConflict (queryHits hits ref ctx)"
  by (induction hits arbitrary: ctx) (auto split: result.splits option.splits)

lemma noConflict_indexIter [intro!]: "noConflict (indexIter bs ctx)"
  by (induction bs arbitrary: ctx) (auto split: option.splits)

lemma noConflict_evalRefRuleResult [intro!]:
  "(\<And>c. noConflict (call c)) \<Longrightarrow> noConflict (evalRefRuleResult call ctx ref suffix result)"
  by (auto simp: evalRefRuleResult_def split: val.splits option.splits)

lemma noConflict_evalRefRuleCompleteDoc [intro!]:
  "(\<And>c. noConflict (call c)) \<Longrightarrow> noConflict (evalRefRuleCompleteDoc call ctx ref path r)"
  by (auto simp: evalRefRuleCompleteDoc_def split: val.splits option.splits)

lemma noConflict_evalRefRulePartialObjectDoc [intro!]:
  "(\<And>c. noConflict (call c)) \<Longrightarrow> noConflict (evalRefRulePartialObjectDoc call ctx ref path r)"
  by (auto simp: evalRefRulePartialObjectDoc_def split: val.splits option.splits list.splits result.splits)

lemma noConflict_evalRefRulePartialSetDoc [intro!]:
  "(\<And>c. noConflict (call c)) \<Longrightarrow> noConflict (evalRefRulePartialSetDoc call ctx ref path r)"
  by (auto simp: evalRefRulePartialSetDoc_def Let_def split: val.splits option.splits list.splits)

lemma noConflict_evalRefRule [intro!]:
  "(\<And>c. noConflict (call c)) \<Longrightarrow> noConflict (evalRefRule call ctx ref path r)"
  by (auto simp: evalRefRule_def split: DocKind.splits)

lemma noConflict_evalRefRec [intro!]:
  "(\<And>c. noConflict (call c)) \<Longrightarrow> noConflict (evalRefRec call st ctx ref path)"
  by (auto simp: evalRefRec_def split: list.splits val.splits option.splits sum.splits native.splits)

lemma noConflict_evalRef [intro!]:
  "(\<And>c. noConflict (call c)) \<Longrightarrow> noConflict (evalRef call st ctx ref)"
  by (auto simp: evalRef_def)

lemma noConflict_evalTermsRecObject [intro!]:
  "(\<And>c. noConflict (call c)) \<Longrightarrow> noConflict (evalTermsRecObject call st ctx obj idx)"
  by (auto simp: evalTermsRecObject_def Let_def split: val.splits)

lemma noConflict_evalTermsRecArray [intro!]:
  "(\<And>c. noConflict (call c)) \<Longrightarrow> noConflict (evalTermsRecArray call st ctx arr idx)"
  by (auto simp: evalTermsRecArray_def split: val.splits)

lemma noConflict_evalTermsRec [intro!]:
  "(\<And>c. noConflict (call c)) \<Longrightarrow> noConflict (evalTermsRec call st ctx ts)"
  by (auto simp: evalTermsRec_def split: val.splits list.splits)

lemma noConflict_evalTermsIndexed [intro!]:
  "(\<And>c. noConflict (call c)) \<Longrightarrow> noConflict (evalTermsIndexed call st ctx indexed nonIndexed)"
  using ValueToInterface_notConflict
  by (auto simp: evalTermsIndexed_def split: result.splits)

lemma indexAvailable_no_error: "indexAvailable ctx ts \<noteq> Error e"
  by (auto simp: indexAvailable_def Let_def split: list.splits)

lemma noConflict_evalTerms [intro!]:
  "(\<And>c. noConflict (call c)) \<Longrightarrow> noConflict (evalTerms call st ctx)"
  using indexAvailable_no_error
  by (auto simp: evalTerms_def Let_def split: option.splits result.splits bool.splits val.splits sum.splits)

lemma noConflict_evalExpr [intro!]:
  "(\<And>c a b. noConflict (unify c a b)) \<Longrightarrow> noConflict (evalExpr unify ctx)"
  by (auto simp: evalExpr_def builtinFunctions_def evalEq_def
      split: option.splits result.splits terms.splits list.splits val.splits)

lemma noConflict_evalContextNegated [intro!]:
  assumes "\<And>c. noConflict (call c)"
  shows "noConflict (evalContextNegated call ctx)"
proof (cases "Current ctx")
  case None then show ?thesis by (simp add: evalContextNegated_def)
next
  case (Some cur)
  from noConflict_collect[OF assms[of "EvalContext (ctx\<lparr>Query := [Complement cur], Index := 0\<rparr>)"]] assms Some
  show ?thesis
    by (auto simp: evalContextNegated_def Let_def split: outcome.splits option.splits)
qed

lemma noConflict_evalContext [intro!]:
  "(\<And>c. noConflict (call c)) \<Longrightarrow> (\<And>c a b. noConflict (unify c a b)) \<Longrightarrow>
     noConflict (evalContext call unify st ctx)"
  by (auto simp: evalContext_def split: option.splits)

lemma noConflict_exec: "noConflict (exec n st c)"
proof (induction n arbitrary: c)
  case 0 show ?case by simp
next
  case (Suc n)
  show ?case using Suc.IH noConflict_evalEqUnify
    by (cases c) auto
qed

lemma runIter_isTrue:
  "runIter r (\<lambda>ctx isTrue. (Ok (), True)) b = (snd (collect r), b \<or> fst (collect r) \<noteq> [])"
  by (induction r arbitrary: b) auto

lemma topDownQueryCompleteDoc_one:
  "topDownQueryCompleteDoc n st [r] =
     answer (snd (collect (TopDown n st (ruleContext r))))
       (if fst (collect (TopDown n st (ruleContext r))) = [] then Ok Undefined
        else (case Value r of
                None \<Rightarrow> Panic
              | Some v \<Rightarrow>
                  (case ValueToInterface st v of
                     Ok x \<Rightarrow> Ok (Document x)
                   | Error err \<Rightarrow> Error err
                   | Panic \<Rightarrow> Panic)))"
  by (simp add: topDownQueryCompleteDoc_def runIter_isTrue ruleContext_def)

lemma topDownQueryCompleteDoc_no_conflict:
  "topDownQueryCompleteDoc n st [r] \<noteq> Some (Error (MultipleConflictingRules nm))"
proof -
  have a: "noConflict (Done (snd (collect (TopDown n st (ruleContext r)))))"
    unfolding TopDown_def by (rule noConflict_collect[OF noConflict_exec])
  show ?thesis
    using a ValueToInterface_notConflict[of st _ "MultipleConflictingRules nm"]
    by (auto simp: topDownQueryCompleteDoc_one answer_def split: outcome.splits option.splits result.splits if_splits)
qed

text \<open>
  Claim C6, as amended. Let \<open>TopDownQuery\<close> resolve the path to a set of rules that is not
  empty and whose first rule is a complete document. It returns the error \<open>multiple
  conflicting rules\<close> iff there is more than one rule. With exactly one rule: when the
  evaluation of the body returns nil, the query returns \<open>Undefined\<close> iff the body had no
  satisfying grounding, and otherwise returns the conversion of the value of the rule to a
  native value (or the error or panic of that conversion); when the evaluation of the body
  returns an error, the query returns that error.
\<close>

theorem complete_document_query:
  assumes "lookup st (Var p0 # map String ps) = Inr (NRules rules)" and "rules \<noteq> []"
    and "DocKind (hd rules) = CompleteDoc"
  shows "((\<exists>nm. TopDownQuery n st (p0 # ps) = Some (Error (MultipleConflictingRules nm))) \<longleftrightarrow> length rules > 1)
     \<and> (length rules > 1 \<longrightarrow>
          TopDownQuery n st (p0 # ps) = Some (Error (MultipleConflictingRules (Name (hd rules)))))
     \<and> (\<forall>r. rules = [r] \<and> snd (collect (TopDown n st (ruleContext r))) = Return None \<longrightarrow>
          (TopDownQuery n st (p0 # ps) = Some (Ok Undefined)
             \<longleftrightarrow> fst (collect (TopDown n st (ruleContext r))) = [])
          \<and> (fst (collect (TopDown n st (ruleContext r))) \<noteq> [] \<longrightarrow>
               TopDownQuery n st (p0 # ps) =
                 (case Value r of
                    None \<Rightarrow> Some Panic
                  | Some v \<Rightarrow>
                      (case ValueToInterface st v of
                         Ok x \<Rightarrow> Some (Ok (Document x))
                       | Error err \<Rightarrow> Some (Error err)
                       | Panic \<Rightarrow> Some Panic))))
     \<and> (\<forall>r err. rules = [r] \<and> snd (collect (TopDown n st (ruleContext r))) = Return (Some err) \<longrightarrow>
          TopDownQuery n st (p0 # ps) = Some (Error err))"
proof -
  have q: "TopDownQuery n st (p0 # ps) = topDownQueryCompleteDoc n st rules"
    using assms by (simp add: TopDownQuery_def)
  have many: "length rules > 1 \<Longrightarrow>
      topDownQueryCompleteDoc n st rules = Some (Error (MultipleConflictingRules (Name (hd rules))))"
    by (simp add: topDownQueryCompleteDoc_def)
  have one: "\<not> length rules > 1 \<Longrightarrow> \<exists>r. rules = [r]"
    using assms(2) by (cases rules) auto
  have A: "(\<exists>nm. TopDownQuery n st (p0 # ps) = Some (Error (MultipleConflictingRules nm))) \<longleftrightarrow> length rules > 1"
    using q many one topDownQueryCompleteDoc_no_conflict by metis
  have B: "length rules > 1 \<longrightarrow>
          TopDownQuery n st (p0 # ps) = Some (Error (MultipleConflictingRules (Name (hd rules))))"
    using q many by simp
  have C: "\<forall>r. rules = [r] \<and> snd (collect (TopDown n st (ruleContext r))) = Return None \<longrightarrow>
          (TopDownQuery n st (p0 # ps) = Some (Ok Undefined)
             \<longleftrightarrow> fst (collect (TopDown n st (ruleContext r))) = [])
          \<and> (fst (collect (TopDown n st (ruleContext r))) \<noteq> [] \<longrightarrow>
               TopDownQuery n st (p0 # ps) =
                 (case Value r of
                    None \<Rightarrow> Some Panic
                  | Some v \<Rightarrow>
                      (case ValueToInterface st v of
                         Ok x \<Rightarrow> Some (Ok (Document x))
                       | Error err \<Rightarrow> Some (Error err)
                       | Panic \<Rightarrow> Some Panic)))"
    using q by (auto simp: topDownQueryCompleteDoc_one answer_def split: option.splits result.splits)
  have D: "\<forall>r err. rules = [r] \<and> snd (collect (TopDown n st (ruleContext r))) = Return (Some err) \<longrightarrow>
          TopDownQuery n st (p0 # ps) = Some (Error err)"
    using q by (auto simp: topDownQueryCompleteDoc_one answer_def)
  from A B C D show ?thesis by blast
qed

text \<open>Instances: two rules at a path, a rule whose body is false, the rule \<open>pi = 3 :- true\<close>,
  and a rule whose body is the number 5.\<close>

theorem complete_document_query_witness:
  "TopDownQuery 5 storeQ [''twice''] = Some (Error (MultipleConflictingRules ''pi''))
   \<and> TopDownQuery 5 storeQ [''never''] = Some (Ok Undefined)
   \<and> TopDownQuery 5 storeQ [''pi''] = Some (Ok (Document (NNumber 3)))
   \<and> TopDownQuery 5 storeQ [''five''] = Some (Error (ImplicitCast (Number 5)))"
proof -
  have 1: "TopDownQuery 5 storeQ [''twice''] = Some (Error (MultipleConflictingRules ''pi''))"
    using complete_document_query[of storeQ "''twice''" "[]" "[piRule, neverRule]" 5]
    by (simp add: storeQ_def DocKind_def piRule_def)
  have n: "collect (TopDown 5 storeQ (ruleContext neverRule)) = ([], Return None)" by code_simp
  have 2: "TopDownQuery 5 storeQ [''never''] = Some (Ok Undefined)"
    using complete_document_query[of storeQ "''never''" "[]" "[neverRule]" 5] n
    by (simp add: storeQ_def DocKind_def neverRule_def)
  have p: "snd (collect (TopDown 5 storeQ (ruleContext piRule))) = Return None"
          "fst (collect (TopDown 5 storeQ (ruleContext piRule))) \<noteq> []" by code_simp+
  have 3: "TopDownQuery 5 storeQ [''pi''] = Some (Ok (Document (NNumber 3)))"
    using complete_document_query[of storeQ "''pi''" "[]" "[piRule]" 5] p
    by (simp add: storeQ_def DocKind_def piRule_def)
  have f: "snd (collect (TopDown 5 storeQ (ruleContext ruleFive))) = Return (Some (ImplicitCast (Number 5)))"
    by code_simp
  have 4: "TopDownQuery 5 storeQ [''five''] = Some (Error (ImplicitCast (Number 5)))"
    using complete_document_query[of storeQ "''five''" "[]" "[ruleFive]" 5] f
    by (simp add: storeQ_def DocKind_def ruleFive_def)
  from 1 2 3 4 show ?thesis by simp
qed

text \<open>The claim without the proviso fails: the body \<open>5\<close> has no satisfying grounding, and the
  query returns the error of the body, not \<open>Undefined\<close>.\<close>

theorem complete_document_error_counterexample:
  "fst (collect (TopDown 5 storeQ (ruleContext ruleFive))) = []
   \<and> TopDownQuery 5 storeQ [''five''] = Some (Error (ImplicitCast (Number 5)))
   \<and> TopDownQuery 5 storeQ [''five''] \<noteq> Some (Ok Undefined)"
  by code_simp

end
